theory Spec2Isabelle
  imports Complex_Main "HOL-Library.Word"
begin

section \<open>The frame-batch producer of datumProducer.hpp\<close>

text \<open>
  A shallow embedding of \<^verbatim>\<open>op::DatumProducer\<close>
  (src/base/include/openpose/producer/datumProducer.hpp): its constructor,
  \<^verbatim>\<open>checkIfRunningAndGetDatum\<close> and
  \<^verbatim>\<open>checkIfTooManyConsecutiveEmptyFrames\<close>.

  The members of the class are a record; every member function takes the record and
  returns it updated, together with either its value or the exception it threw. The
  \<^verbatim>\<open>Producer\<close> behind \<^verbatim>\<open>spProducer\<close> is an abstract class whose
  header is not part of the sources: its virtual functions are parameters of the model,
  functions on an arbitrary producer state \<open>'p\<close>, each of which may throw.
\<close>

subsection \<open>Machine integers and images\<close>

type_synonym ull = "64 word"   \<comment> \<open>unsigned long long\<close>
type_synonym uint = "32 word"  \<comment> \<open>unsigned int\<close>
type_synonym cint = "32 word"  \<comment> \<open>int, read through \<open>sint\<close>; arithmetic wraps\<close>

definition ull_max :: ull where
  \<comment> \<open>\<^verbatim>\<open>std::numeric_limits<unsigned long long>::max()\<close>\<close>
  "ull_max = - 1"

text \<open>
  A \<^verbatim>\<open>cv::Mat\<close> by value: its size, its channel count and its samples (row
  major, the channels of a pixel side by side). Assignment of a \<^verbatim>\<open>cv::Mat\<close>
  shares the buffer; the model compares images by value.
\<close>

record Mat =
  rows :: nat
  cols :: nat
  channels :: nat
  pixels :: "nat list"

definition Mat_default :: Mat where
  \<comment> \<open>\<^verbatim>\<open>cv::Mat()\<close>: no data, and \<^verbatim>\<open>channels()\<close> is 1\<close>
  "Mat_default = \<lparr>rows = 0, cols = 0, channels = 1, pixels = []\<rparr>"

definition empty_Mat :: "Mat \<Rightarrow> bool" where
  \<comment> \<open>\<^verbatim>\<open>cv::Mat::empty()\<close>\<close>
  "empty_Mat m = (rows m = 0 \<or> cols m = 0)"

definition GRAY2BGR :: "Mat \<Rightarrow> Mat" where
  \<comment> \<open>what OpenCV documents for \<^verbatim>\<open>CV_GRAY2BGR\<close>: every sample three times\<close>
  "GRAY2BGR m = m\<lparr>channels := 3, pixels := concat (map (\<lambda>g. [g, g, g]) (pixels m))\<rparr>"

subsection \<open>Exceptions\<close>

text \<open>
  \<open>StdException\<close> is a \<^verbatim>\<open>std::exception\<close> thrown by the source or by OpenCV,
  with its \<^verbatim>\<open>what()\<close>. \<open>OpError\<close> is what \<^verbatim>\<open>op::error\<close> throws: the
  message, \<^verbatim>\<open>__LINE__\<close> and \<^verbatim>\<open>__FUNCTION__\<close>. \<open>OutOfRange\<close> marks
  \<^verbatim>\<open>operator[]\<close> of a \<^verbatim>\<open>std::vector\<close> past its end: undefined behaviour,
  which no handler catches.
\<close>

datatype exn = StdException string | OpError string nat string | OutOfRange

fun what :: "exn \<Rightarrow> string" where
  "what (StdException m) = m"
| "what (OpError m l f) = m"
| "what OutOfRange = []"

fun caught :: "exn \<Rightarrow> bool" where
  \<comment> \<open>\<^verbatim>\<open>catch (const std::exception& e)\<close>\<close>
  "caught OutOfRange = False"
| "caught e = True"

definition vec_at :: "'a list \<Rightarrow> nat \<Rightarrow> exn + 'a" where
  \<comment> \<open>\<^verbatim>\<open>v[i]\<close> on a \<^verbatim>\<open>std::vector\<close>\<close>
  "vec_at v i = (if i < length v then Inr (v ! i) else Inl OutOfRange)"

subsection \<open>The source, the seek channel and the producer's members\<close>

datatype ProducerType = ImageDirectory | IPCamera | Video | Webcam

datatype 'd call =
    CallRelease
  | CallSet int 'd
  | CallGet int
  | CallGetNextFrameName
  | CallGetFrames
  | CallGetCameraMatrices
  | CallGetCameraExtrinsics
  | CallGetCameraIntrinsics

definition CV_CAP_PROP_POS_FRAMES :: int where
  "CV_CAP_PROP_POS_FRAMES = 1"

text \<open>
  The virtual functions of \<^verbatim>\<open>Producer\<close> that the class calls, and
  \<^verbatim>\<open>cv::cvtColor\<close> with the code \<^verbatim>\<open>CV_GRAY2BGR\<close>. Each returns its
  value (\<open>Inr\<close>) or throws a \<^verbatim>\<open>std::exception\<close> (\<open>Inl\<close>, with its
  \<^verbatim>\<open>what()\<close>), and leaves the source in a new state; \<^verbatim>\<open>getType()\<close> and
  \<^verbatim>\<open>isOpened()\<close> are queries.

  A \<^verbatim>\<open>double\<close> is a value of a type \<open>'d\<close> that the model does not look
  into, so that rounding, infinities and NaN are whatever the machine makes them. What
  the class does with a \<^verbatim>\<open>double\<close> are parameters too: the cast
  \<^verbatim>\<open>(double)frameFirst\<close> of line 63, the conversion of the \<^verbatim>\<open>int\<close>
  increment and the addition of line 95, and the cast
  \<^verbatim>\<open>(unsigned long long)\<close> of line 100. \<open>double_val\<close> is the number a
  \<^verbatim>\<open>double\<close> stands for; no step of the class uses it, it only lets a theorem
  say that an addition was exact.
\<close>

record ('p, 'd) Externals =
  getType :: "'p \<Rightarrow> ProducerType"
  isOpened :: "'p \<Rightarrow> bool"
  release :: "'p \<Rightarrow> (string + unit) \<times> 'p"
  get_cap :: "int \<Rightarrow> 'p \<Rightarrow> (string + 'd) \<times> 'p"
  set_cap :: "int \<Rightarrow> 'd \<Rightarrow> 'p \<Rightarrow> (string + unit) \<times> 'p"
  getNextFrameName :: "'p \<Rightarrow> (string + string) \<times> 'p"
  getFrames :: "'p \<Rightarrow> (string + Mat list) \<times> 'p"
  getCameraMatrices :: "'p \<Rightarrow> (string + Mat list) \<times> 'p"
  getCameraExtrinsics :: "'p \<Rightarrow> (string + Mat list) \<times> 'p"
  getCameraIntrinsics :: "'p \<Rightarrow> (string + Mat list) \<times> 'p"
  cvtColor :: "Mat \<Rightarrow> string + Mat"
  double_of_ull :: "ull \<Rightarrow> 'd"
  double_of_int :: "cint \<Rightarrow> 'd"
  double_add :: "'d \<Rightarrow> 'd \<Rightarrow> 'd"
  ull_of_double :: "'d \<Rightarrow> ull"
  double_val :: "'d \<Rightarrow> real"

text \<open>
  The members of \<^verbatim>\<open>DatumProducer\<close>. \<open>spProducer\<close> holds the state of the
  pointed-to source, \<open>spVideoSeek\<close> the pointed-to pair (pause flag, increment) or
  \<open>None\<close> for \<^verbatim>\<open>nullptr\<close>. Three more fields observe the run: \<open>logged\<close> is what
  \<^verbatim>\<open>op::log\<close> printed, \<open>issued\<close> the calls made on the source, in order.
  \<open>reported\<close> is what \<^verbatim>\<open>op::error\<close> reported without throwing.
  The model is sequential: a write to the seek channel by another thread happens
  between two calls.
\<close>

record ('p, 'd) State =
  spProducer :: 'p
  spVideoSeek :: "(bool \<times> cint) option"
  mNumberFramesToProcess :: ull
  mGlobalCounter :: ull
  mNumberConsecutiveEmptyFrames :: uint
  logged :: "string list"
  issued :: "'d call list"
  reported :: "(string \<times> nat \<times> string) list"

record Datum =
  name :: string
  frameNumber :: ull
  cvInputData :: Mat
  cvOutputData :: Mat
  cameraMatrix :: Mat
  cameraExtrinsics :: Mat
  cameraIntrinsics :: Mat

definition Datum_default :: Datum where
  \<comment> \<open>\<^verbatim>\<open>Datum()\<close>, as \<^verbatim>\<open>resize\<close> creates it\<close>
  "Datum_default = \<lparr>name = [], frameNumber = 0, cvInputData = Mat_default,
     cvOutputData = Mat_default, cameraMatrix = Mat_default,
     cameraExtrinsics = Mat_default, cameraIntrinsics = Mat_default\<rparr>"

subsection \<open>Statements that may throw\<close>

type_synonym ('p, 'd, 'a) stmt = "('p, 'd) State \<Rightarrow> (exn + 'a) \<times> ('p, 'd) State"

definition ret :: "'a \<Rightarrow> ('p, 'd, 'a) stmt" where
  "ret x s = (Inr x, s)"

definition throw_exn :: "exn \<Rightarrow> ('p, 'd, 'a) stmt" where
  "throw_exn e s = (Inl e, s)"

definition lift_result :: "exn + 'a \<Rightarrow> ('p, 'd, 'a) stmt" where
  "lift_result r s = (r, s)"

definition then_do :: "('p, 'd, 'a) stmt \<Rightarrow> ('a \<Rightarrow> ('p, 'd, 'b) stmt) \<Rightarrow> ('p, 'd, 'b) stmt" where
  "then_do m f s = (case m s of (Inl e, s') \<Rightarrow> (Inl e, s') | (Inr x, s') \<Rightarrow> f x s')"

definition try_catch :: "('p, 'd, 'a) stmt \<Rightarrow> (exn \<Rightarrow> ('p, 'd, 'a) stmt) \<Rightarrow> ('p, 'd, 'a) stmt" where
  "try_catch m h s =
     (case m s of
        (Inl e, s') \<Rightarrow> if caught e then h e s' else (Inl e, s')
      | (Inr x, s') \<Rightarrow> (Inr x, s'))"

definition thrown :: "string + 'a \<Rightarrow> exn + 'a" where
  \<comment> \<open>what a function outside the class returned or threw\<close>
  "thrown r = (case r of Inl w \<Rightarrow> Inl (StdException w) | Inr x \<Rightarrow> Inr x)"

definition on_producer :: "'d call \<Rightarrow> ('p \<Rightarrow> (string + 'a) \<times> 'p) \<Rightarrow> ('p, 'd, 'a) stmt" where
  \<comment> \<open>a call through \<^verbatim>\<open>spProducer->\<close>\<close>
  "on_producer c m s =
     (case m (spProducer s) of
        (r, p') \<Rightarrow> (thrown r, s\<lparr>spProducer := p', issued := issued s @ [c]\<rparr>))"

definition error_exn :: "string \<Rightarrow> nat \<Rightarrow> string \<Rightarrow> exn" where
  \<comment> \<open>the exception that \<^verbatim>\<open>op::error\<close> throws when it throws\<close>
  "error_exn message line function = OpError message line function"

definition error_op :: "string \<Rightarrow> nat \<Rightarrow> string \<Rightarrow> ('p, 'd, unit) stmt" where
  \<comment> \<open>Modelled from the spec: \<^verbatim>\<open>op::error\<close> (openpose/utilities/errorAndLog.hpp) is
      not part of the sources. Section 7: every terminal condition of the production call
      goes through a single fatal-error mechanism carrying a message and a source location
      tag, raised synchronously out of the call. Sections 4.1 and 7: the failure of the
      cursor seek at construction goes to the same mechanism, is reported, and does not
      abort construction. So the call made by the constructor records its report and
      returns, and every other call throws.\<close>
  "error_op message line function s =
     (if function = ''DatumProducer''
      then (Inr (), s\<lparr>reported := reported s @ [(message, line, function)]\<rparr>)
      else (Inl (error_exn message line function), s))"

definition log_op :: "string \<Rightarrow> ('p, 'd, unit) stmt" where
  \<comment> \<open>\<^verbatim>\<open>op::log(message, Priority::High)\<close>\<close>
  "log_op message s = (Inr (), s\<lparr>logged := logged s @ [message]\<rparr>)"

subsection \<open>The stall guard\<close>

definition digit_char :: "nat \<Rightarrow> char" where
  "digit_char d = ''0123456789'' ! d"

function to_string :: "nat \<Rightarrow> string" where
  \<comment> \<open>\<^verbatim>\<open>std::to_string\<close> of an unsigned value: its decimal digits\<close>
  "to_string n =
     (if n < 10 then [digit_char n] else to_string (n div 10) @ [digit_char (n mod 10)])"
  by pat_completeness auto
termination
  by (relation "measure id") auto

declare to_string.simps [simp del]

definition checkIfTooManyConsecutiveEmptyFrames :: "uint \<Rightarrow> bool \<Rightarrow> (exn + unit) \<times> uint" where
  \<comment> \<open>lines 173 to 182; the reference parameter is returned updated\<close>
  "checkIfTooManyConsecutiveEmptyFrames numberConsecutiveEmptyFrames emptyFrame =
     (let n = (if emptyFrame then numberConsecutiveEmptyFrames + 1 else 0);
          threshold = 500
      in if n \<ge> threshold
         then (Inl (error_exn (''Detected too many ('' @ to_string (unat n)
                                 @ '') empty frames in a row.'')
                      181 ''checkIfTooManyConsecutiveEmptyFrames''), n)
         else (Inr (), n))"

fun reads :: "uint \<Rightarrow> bool list \<Rightarrow> (exn + unit) \<times> uint" where
  \<comment> \<open>one call of the guard per read, until one of them throws\<close>
  "reads c [] = (Inr (), c)"
| "reads c (emptyFrame # rest) =
     (case checkIfTooManyConsecutiveEmptyFrames c emptyFrame of
        (Inl e, c') \<Rightarrow> (Inl e, c')
      | (Inr u, c') \<Rightarrow> reads c' rest)"

subsection \<open>Producing the next batch\<close>

text \<open>
  \<^verbatim>\<open>checkIfRunningAndGetDatum\<close> is one long function; the model cuts it into
  steps, each a definition that names the lines it stands for, and puts them together
  in \<open>getDatum\<close> (the body of the \<^verbatim>\<open>try\<close>) and
  \<open>checkIfRunningAndGetDatum\<close> (with the handler). Local variables keep their names;
  the vectors \<^verbatim>\<open>cameraExtrinsics\<close> and \<^verbatim>\<open>cameraIntrinsics\<close> take a second
  \<open>s\<close>, since the fields of \<open>Datum\<close> have those names. The index of the loop is a
  \<open>nat\<close>: an \<^verbatim>\<open>unsigned int\<close> does not wrap below \<open>2^32\<close> views.
\<close>

definition videoSeek :: "('p, 'd) Externals \<Rightarrow> ('p, 'd, unit) stmt" where
  \<comment> \<open>lines 89 to 98. \<^verbatim>\<open>INT_MIN - 1\<close> is undefined in C++; here it wraps.\<close>
  "videoSeek ext s =
     (case spVideoSeek s of
        None \<Rightarrow> ret () s
      | Some (first, second) \<Rightarrow>
          (let increment = second - (if first then 1 else 0) in
           then_do
             (if increment \<noteq> 0
              then then_do (on_producer (CallGet CV_CAP_PROP_POS_FRAMES)
                              (get_cap ext CV_CAP_PROP_POS_FRAMES))
                     (\<lambda>pos. on_producer
                        (CallSet CV_CAP_PROP_POS_FRAMES
                           (double_add ext pos (double_of_int ext increment)))
                        (set_cap ext CV_CAP_PROP_POS_FRAMES
                           (double_add ext pos (double_of_int ext increment))))
              else ret ())
             (\<lambda>_ s'. ret () (s'\<lparr>spVideoSeek := map_option (\<lambda>(f, _). (f, 0)) (spVideoSeek s')\<rparr>)))
            s)"

definition copyCalibration :: "nat \<Rightarrow> Mat list \<Rightarrow> Mat list \<Rightarrow> Mat list \<Rightarrow> Datum \<Rightarrow> exn + Datum" where
  \<comment> \<open>lines 118 to 120, and 149 to 151\<close>
  "copyCalibration i cameraMatrices cameraExtrinsicss cameraIntrinsicss d =
     (case vec_at cameraMatrices i of Inl e \<Rightarrow> Inl e | Inr m \<Rightarrow>
       (case vec_at cameraExtrinsicss i of Inl e \<Rightarrow> Inl e | Inr x \<Rightarrow>
         (case vec_at cameraIntrinsicss i of Inl e \<Rightarrow> Inl e | Inr y \<Rightarrow>
            Inr (d\<lparr>cameraMatrix := m, cameraExtrinsics := x, cameraIntrinsics := y\<rparr>))))"

definition fillFirst :: "string \<Rightarrow> ull \<Rightarrow> Mat list \<Rightarrow> Mat list \<Rightarrow> Mat list \<Rightarrow> Mat list \<Rightarrow> Datum \<Rightarrow> exn + Datum" where
  \<comment> \<open>lines 113 to 121\<close>
  "fillFirst nextFrameName nextFrameNumber cvMats cameraMatrices cameraExtrinsicss
       cameraIntrinsicss datum =
     (case vec_at cvMats 0 of Inl e \<Rightarrow> Inl e | Inr m \<Rightarrow>
        (let datum = datum\<lparr>name := nextFrameName, frameNumber := nextFrameNumber,
                             cvInputData := m\<rparr>
         in if cameraMatrices \<noteq> []
            then copyCalibration 0 cameraMatrices cameraExtrinsicss cameraIntrinsicss datum
            else Inr datum))"

definition commonMessage :: string where
  "commonMessage = ''Input images must be 3-channel BGR.''"

definition imageIntegrity :: "('p, 'd) Externals \<Rightarrow> Datum \<Rightarrow> ('p, 'd, Datum) stmt" where
  \<comment> \<open>lines 123 to 135\<close>
  "imageIntegrity ext datum =
     then_do
       (if channels (cvInputData datum) \<noteq> 3
        then (if channels (cvInputData datum) = 1
              then then_do (log_op (commonMessage @ '' Converting grey image into BGR.''))
                     (\<lambda>_. then_do (lift_result (thrown (cvtColor ext (cvInputData datum))))
                        (\<lambda>m. ret (datum\<lparr>cvInputData := m\<rparr>)))
              else then_do (error_op commonMessage 133 ''checkIfRunningAndGetDatum'')
                     (\<lambda>_. ret datum))
        else ret datum)
       (\<lambda>datum. ret (datum\<lparr>cvOutputData := cvInputData datum\<rparr>))"

definition assignView :: "nat \<Rightarrow> Mat list \<Rightarrow> Mat list \<Rightarrow> Mat list \<Rightarrow> Mat list \<Rightarrow> Datum list \<Rightarrow> exn + Datum" where
  \<comment> \<open>lines 142 to 152, the body of the loop; \<^verbatim>\<open>datum\<close> is element 0\<close>
  "assignView i cvMats cameraMatrices cameraExtrinsicss cameraIntrinsicss datums =
     (case vec_at datums i of Inl e \<Rightarrow> Inl e | Inr datumI \<Rightarrow>
       (case vec_at datums 0 of Inl e \<Rightarrow> Inl e | Inr datum \<Rightarrow>
         (case vec_at cvMats i of Inl e \<Rightarrow> Inl e | Inr m \<Rightarrow>
            (let datumI = datumI\<lparr>name := name datum, frameNumber := frameNumber datum,
                                   cvInputData := m, cvOutputData := m\<rparr>
             in if length cameraMatrices > i
                then copyCalibration i cameraMatrices cameraExtrinsicss cameraIntrinsicss datumI
                else Inr datumI))))"

function stereoLoop :: "nat \<Rightarrow> Mat list \<Rightarrow> Mat list \<Rightarrow> Mat list \<Rightarrow> Mat list \<Rightarrow> Datum list \<Rightarrow> exn + Datum list" where
  \<comment> \<open>lines 140 to 153: \<^verbatim>\<open>for (auto i = 1u ; i < datums->size() ; i++)\<close>\<close>
  "stereoLoop i cvMats cameraMatrices cameraExtrinsicss cameraIntrinsicss datums =
     (if i < length datums
      then (case assignView i cvMats cameraMatrices cameraExtrinsicss cameraIntrinsicss datums of
              Inl e \<Rightarrow> Inl e
            | Inr datumI \<Rightarrow>
                stereoLoop (i + 1) cvMats cameraMatrices cameraExtrinsicss cameraIntrinsicss
                  (datums[i := datumI]))
      else Inr datums)"
  by pat_completeness auto
termination
  by (relation "measure (\<lambda>(i, cvMats, cm, ce, ci, datums). length datums - i)") auto

declare stereoLoop.simps [simp del]

definition populate :: "('p, 'd) Externals \<Rightarrow> string \<Rightarrow> ull \<Rightarrow> Mat list \<Rightarrow> Mat list \<Rightarrow> Mat list \<Rightarrow> Mat list \<Rightarrow> ('p, 'd, Datum list) stmt" where
  \<comment> \<open>lines 109 to 154\<close>
  "populate ext nextFrameName nextFrameNumber cvMats cameraMatrices cameraExtrinsicss
       cameraIntrinsicss =
     (let datums = replicate (length cvMats) Datum_default in
      then_do (lift_result (vec_at datums 0)) (\<lambda>datum.
      then_do (lift_result (fillFirst nextFrameName nextFrameNumber cvMats cameraMatrices
                 cameraExtrinsicss cameraIntrinsicss datum)) (\<lambda>datum.
      then_do (imageIntegrity ext datum) (\<lambda>datum.
      (let datums = datums[0 := datum] in
       if length datums > 1
       then lift_result (stereoLoop 1 cvMats cameraMatrices cameraExtrinsicss
              cameraIntrinsicss datums)
       else ret datums)))))"

type_synonym fetched = "string \<times> ull \<times> Mat list \<times> Mat list \<times> Mat list \<times> Mat list"

definition releaseIfLastFrameReached :: "('p, 'd) Externals \<Rightarrow> ('p, 'd, unit) stmt" where
  \<comment> \<open>lines 77 to 82\<close>
  "releaseIfLastFrameReached ext s =
     (if mNumberFramesToProcess s \<noteq> ull_max \<and> mGlobalCounter s > mNumberFramesToProcess s
      then on_producer CallRelease (release ext) s
      else ret () s)"

definition fetch :: "('p, 'd) Externals \<Rightarrow> ('p, 'd, fetched) stmt" where
  \<comment> \<open>lines 99 to 104\<close>
  "fetch ext =
     then_do (on_producer CallGetNextFrameName (getNextFrameName ext)) (\<lambda>nextFrameName.
     then_do (on_producer (CallGet CV_CAP_PROP_POS_FRAMES)
                (get_cap ext CV_CAP_PROP_POS_FRAMES)) (\<lambda>pos.
     then_do (on_producer CallGetFrames (getFrames ext)) (\<lambda>cvMats.
     then_do (on_producer CallGetCameraMatrices (getCameraMatrices ext)) (\<lambda>cameraMatrices.
     then_do (on_producer CallGetCameraExtrinsics (getCameraExtrinsics ext)) (\<lambda>cameraExtrinsicss.
     then_do (on_producer CallGetCameraIntrinsics (getCameraIntrinsics ext)) (\<lambda>cameraIntrinsicss.
       ret (nextFrameName, ull_of_double ext pos, cvMats, cameraMatrices, cameraExtrinsicss,
            cameraIntrinsicss)))))))"

definition acquire :: "('p, 'd) Externals \<Rightarrow> ('p, 'd, fetched option) stmt" where
  \<comment> \<open>lines 77 to 104: \<open>None\<close> when \<^verbatim>\<open>isOpened()\<close> returned false, else what was
      fetched from the source\<close>
  "acquire ext =
     then_do (releaseIfLastFrameReached ext) (\<lambda>_ s.
       (let datumProducerRunning = isOpened ext (spProducer s) in
        if datumProducerRunning
        then then_do (videoSeek ext) (\<lambda>_. then_do (fetch ext) (\<lambda>f. ret (Some f))) s
        else ret None s))"

definition stallGuard :: "bool \<Rightarrow> ('p, 'd, unit) stmt" where
  \<comment> \<open>line 106: the guard, on the member \<^verbatim>\<open>mNumberConsecutiveEmptyFrames\<close>\<close>
  "stallGuard emptyFrame s =
     (case checkIfTooManyConsecutiveEmptyFrames (mNumberConsecutiveEmptyFrames s) emptyFrame of
        (r, n) \<Rightarrow> (r, s\<lparr>mNumberConsecutiveEmptyFrames := n\<rparr>))"

definition deliver :: "('p, 'd) Externals \<Rightarrow> bool \<Rightarrow> fetched \<Rightarrow> ('p, 'd, bool \<times> Datum list option) stmt" where
  \<comment> \<open>lines 106 to 164 with the source open. The batch is \<open>None\<close> for
      \<^verbatim>\<open>nullptr\<close>; \<open>Some []\<close> is the empty batch made at line 76.\<close>
  "deliver ext datumProducerRunning f =
     (case f of (nextFrameName, nextFrameNumber, cvMats, cameraMatrices, cameraExtrinsicss,
                 cameraIntrinsicss) \<Rightarrow>
      then_do (stallGuard (cvMats = [] \<or> empty_Mat (cvMats ! 0))) (\<lambda>_.
      if cvMats \<noteq> []
      then
        then_do (populate ext nextFrameName nextFrameNumber cvMats cameraMatrices
                   cameraExtrinsicss cameraIntrinsicss) (\<lambda>datums.
        if \<not> datumProducerRunning \<or> empty_Mat (cvInputData (datums ! 0))
        then ret (datumProducerRunning, None)
        else (\<lambda>s. ret (datumProducerRunning, Some datums)
                     (s\<lparr>mGlobalCounter := mGlobalCounter s + 1\<rparr>)))
      else ret (datumProducerRunning, Some [])))"

definition getDatum :: "('p, 'd) Externals \<Rightarrow> ('p, 'd, bool \<times> Datum list option) stmt" where
  \<comment> \<open>lines 76 to 164, the body of the \<^verbatim>\<open>try\<close>\<close>
  "getDatum ext =
     then_do (acquire ext) (\<lambda>a.
       case a of
         None \<Rightarrow> ret (False, Some [])
       | Some f \<Rightarrow> deliver ext True f)"

definition checkIfRunningAndGetDatum :: "('p, 'd) Externals \<Rightarrow> ('p, 'd, bool \<times> Datum list option) stmt" where
  \<comment> \<open>lines 72 to 171\<close>
  "checkIfRunningAndGetDatum ext =
     try_catch (getDatum ext)
       (\<lambda>e. then_do (error_op (what e) 168 ''checkIfRunningAndGetDatum'')
              (\<lambda>_ :: unit. ret (False, Some [])))"

definition DatumProducer :: "('p, 'd) Externals \<Rightarrow> 'p \<Rightarrow> ull \<Rightarrow> ull \<Rightarrow> (bool \<times> cint) option \<Rightarrow> (exn + unit) \<times> ('p, 'd) State" where
  \<comment> \<open>lines 49 to 69. \<open>Inr\<close>: the object is built, with the members returned; \<open>Inl\<close>:
      the constructor did not return and there is no object.\<close>
  "DatumProducer ext producerSharedPtr frameFirst frameLast videoSeekSharedPtr =
     try_catch
       (\<lambda>s. if getType ext (spProducer s) \<noteq> Webcam
            then on_producer (CallSet CV_CAP_PROP_POS_FRAMES (double_of_ull ext frameFirst))
                   (set_cap ext CV_CAP_PROP_POS_FRAMES (double_of_ull ext frameFirst)) s
            else ret () s)
       (\<lambda>e. error_op (what e) 67 ''DatumProducer'')
       \<lparr>spProducer = producerSharedPtr, spVideoSeek = videoSeekSharedPtr,
        mNumberFramesToProcess = (if frameLast \<noteq> ull_max then frameLast - frameFirst else frameLast),
        mGlobalCounter = 0, mNumberConsecutiveEmptyFrames = 0, logged = [], issued = [],
        reported = []\<rparr>"

subsection \<open>The caller's pull loop\<close>

text \<open>
  Between two calls the rest of the program may change what the two shared pointers
  point to: the source and the seek channel. A \<open>world\<close> step is such a change.
\<close>

type_synonym 'p world = "('p \<Rightarrow> 'p) \<times> (bool \<times> cint \<Rightarrow> bool \<times> cint)"

definition outside :: "'p world \<Rightarrow> ('p, 'd) State \<Rightarrow> ('p, 'd) State" where
  "outside w s = s\<lparr>spProducer := fst w (spProducer s),
                    spVideoSeek := map_option (snd w) (spVideoSeek s)\<rparr>"

fun pull :: "('p, 'd) Externals \<Rightarrow> 'p world list \<Rightarrow> ('p, 'd) State \<Rightarrow> (exn + bool \<times> Datum list option) list \<times> ('p, 'd) State" where
  \<comment> \<open>one call of \<^verbatim>\<open>checkIfRunningAndGetDatum\<close> after every step of the world\<close>
  "pull ext [] s = ([], s)"
| "pull ext (w # ws) s =
     (case checkIfRunningAndGetDatum ext (outside w s) of
        (r, s') \<Rightarrow> (case pull ext ws s' of (rs, s'') \<Rightarrow> (r # rs, s'')))"

fun counts :: "uint \<Rightarrow> bool list \<Rightarrow> uint" where
  \<comment> \<open>the counter after these reads, one call of the guard for each, thrown or not\<close>
  "counts c [] = c"
| "counts c (emptyFrame # rest) =
     counts (snd (checkIfTooManyConsecutiveEmptyFrames c emptyFrame)) rest"

definition read_of :: "('p, 'd) Externals \<Rightarrow> ('p, 'd) State \<Rightarrow> bool list" where
  \<comment> \<open>the read that a call makes when it gets to line 106, \<open>True\<close> for an empty one (the
      argument of the guard); no read when the source is closed or a call on it throws\<close>
  "read_of ext s =
     (case fst (acquire ext s) of
        Inr (Some (nextFrameName, nextFrameNumber, cvMats, cameraMatrices, cameraExtrinsicss,
                   cameraIntrinsicss)) \<Rightarrow> [cvMats = [] \<or> empty_Mat (cvMats ! 0)]
      | _ \<Rightarrow> [])"

fun pull_reads :: "('p, 'd) Externals \<Rightarrow> 'p world list \<Rightarrow> ('p, 'd) State \<Rightarrow> bool list" where
  \<comment> \<open>the reads of the calls of the pull loop, in order\<close>
  "pull_reads ext [] s = []"
| "pull_reads ext (w # ws) s =
     read_of ext (outside w s)
       @ pull_reads ext ws (snd (checkIfRunningAndGetDatum ext (outside w s)))"

fun delivered :: "exn + bool \<times> Datum list option \<Rightarrow> bool" where
  \<comment> \<open>the call returned a batch with at least one view\<close>
  "delivered (Inr (running, Some (d # ds))) = True"
| "delivered r = False"

fun non_null :: "exn + bool \<times> Datum list option \<Rightarrow> bool" where
  \<comment> \<open>the call returned a pointer other than \<^verbatim>\<open>nullptr\<close>\<close>
  "non_null (Inr (running, Some ds)) = True"
| "non_null r = False"

definition closes_on_release :: "('p, 'd) Externals \<Rightarrow> bool" where
  \<comment> \<open>what the class expects of \<^verbatim>\<open>release()\<close>: when it returns, the source is closed\<close>
  "closes_on_release ext =
     (\<forall>p. fst (release ext p) = Inr () \<longrightarrow> \<not> isOpened ext (snd (release ext p)))"

definition replicates_grey :: "('p, 'd) Externals \<Rightarrow> bool" where
  \<comment> \<open>what OpenCV documents for \<^verbatim>\<open>cv::cvtColor\<close> with \<^verbatim>\<open>CV_GRAY2BGR\<close>:
      when it returns, the result is the one-channel image with every sample three times\<close>
  "replicates_grey ext =
     (\<forall>m m'. channels m = 1 \<longrightarrow> cvtColor ext m = Inr m' \<longrightarrow> m' = GRAY2BGR m)"

fun is_move :: "'d call \<Rightarrow> bool" where
  \<comment> \<open>the call moves the cursor: \<^verbatim>\<open>set(CV_CAP_PROP_POS_FRAMES, _)\<close>\<close>
  "is_move (CallSet k v) = (k = CV_CAP_PROP_POS_FRAMES)"
| "is_move c = False"



definition calibration_covers :: "Mat list \<Rightarrow> Mat list \<Rightarrow> Mat list \<Rightarrow> Mat list \<Rightarrow> bool" where
  \<comment> \<open>the extrinsics and intrinsics sequences are at least as long as the
      camera-matrices sequence, up to the view count\<close>
  "calibration_covers cvMats cameraMatrices cameraExtrinsicss cameraIntrinsicss =
     (min (length cvMats) (length cameraMatrices) \<le> length cameraExtrinsicss
      \<and> min (length cvMats) (length cameraMatrices) \<le> length cameraIntrinsicss)"

fun batch_of :: "exn + bool \<times> Datum list option \<Rightarrow> Datum list" where
  \<comment> \<open>the views of the batch a call returned\<close>
  "batch_of (Inr (running, Some ds)) = ds"
| "batch_of r = []"

subsection \<open>A source to run the model on\<close>

text \<open>
  A source that returns the same views at every read and moves its cursor by one;
  \<open>seek_fails\<close> makes its \<^verbatim>\<open>set\<close> throw. Its positions are small whole
  numbers, where the arithmetic of \<^verbatim>\<open>double\<close> is that of the reals.
\<close>

record Reel =
  kind :: ProducerType
  opened :: bool
  cursor :: real
  views :: "Mat list"
  matrices :: "Mat list"
  extrinsics :: "Mat list"
  intrinsics :: "Mat list"
  seek_fails :: bool

definition reel :: "(Reel, real) Externals" where
  "reel = \<lparr>
     getType = kind,
     isOpened = opened,
     release = (\<lambda>p. (Inr (), p\<lparr>opened := False\<rparr>)),
     get_cap = (\<lambda>k p. (Inr (cursor p), p)),
     set_cap = (\<lambda>k v p. if seek_fails p then (Inl ''cannot seek'', p)
                          else (Inr (), p\<lparr>cursor := v\<rparr>)),
     getNextFrameName = (\<lambda>p. (Inr ''frame'', p)),
     getFrames = (\<lambda>p. (Inr (views p), p\<lparr>cursor := cursor p + 1\<rparr>)),
     getCameraMatrices = (\<lambda>p. (Inr (matrices p), p)),
     getCameraExtrinsics = (\<lambda>p. (Inr (extrinsics p), p)),
     getCameraIntrinsics = (\<lambda>p. (Inr (intrinsics p), p)),
     cvtColor = (\<lambda>m. if channels m = 1 \<and> \<not> empty_Mat m then Inr (GRAY2BGR m)
                     else Inl ''cvtColor''),
     double_of_ull = (\<lambda>n. real (unat n)),
     double_of_int = (\<lambda>i. real_of_int (sint i)),
     double_add = (\<lambda>a b. a + b),
     ull_of_double = (\<lambda>x. word_of_int (if 0 \<le> x then \<lfloor>x\<rfloor> else \<lceil>x\<rceil>)),
     double_val = (\<lambda>x. x)\<rparr>"

definition bgr :: Mat where
  "bgr = \<lparr>rows = 1, cols = 1, channels = 3, pixels = [10, 20, 30]\<rparr>"

definition grey :: Mat where
  "grey = \<lparr>rows = 1, cols = 2, channels = 1, pixels = [7, 9]\<rparr>"

definition mono :: Reel where
  "mono = \<lparr>kind = Video, opened = True, cursor = 0, views = [bgr], matrices = [], extrinsics = [],
            intrinsics = [], seek_fails = False\<rparr>"

definition blank :: Mat where
  "blank = \<lparr>rows = 0, cols = 0, channels = 3, pixels = []\<rparr>"

definition two_channel :: Mat where
  "two_channel = \<lparr>rows = 1, cols = 1, channels = 2, pixels = [1, 2]\<rparr>"

definition jammed :: Reel where
  "jammed = mono\<lparr>seek_fails := True\<rparr>"

definition started :: "Reel \<Rightarrow> (bool \<times> cint) option \<Rightarrow> (Reel, real) State" where
  \<comment> \<open>a producer built on a live source (no seek at construction), range unbounded\<close>
  "started p seek = snd (DatumProducer reel (p\<lparr>kind := Webcam\<rparr>) 0 ull_max seek)"

definition blank_run :: "(Reel, real) State" where
  "blank_run = started (mono\<lparr>views := [blank]\<rparr>) None"

definition grey_run :: "(Reel, real) State" where
  "grey_run = started (mono\<lparr>views := [grey]\<rparr>) None"

definition two_channel_run :: "(Reel, real) State" where
  "two_channel_run = started (mono\<lparr>views := [two_channel]\<rparr>) None"

definition stereo_run :: "(Reel, real) State" where
  "stereo_run = started (mono\<lparr>views := [grey, bgr], matrices := [bgr, bgr],
     extrinsics := [bgr, bgr], intrinsics := [bgr, bgr]\<rparr>) None"

definition short_run :: "(Reel, real) State" where
  "short_run = started (mono\<lparr>views := [bgr, bgr], matrices := [bgr, bgr],
     extrinsics := [bgr], intrinsics := [bgr, bgr]\<rparr>) None"

definition dry :: "(Reel, real) State" where
  \<comment> \<open>a producer on an open source that has no view to give\<close>
  "dry = started (mono\<lparr>views := []\<rparr>) None"

definition dry_499 :: "(Reel, real) State" where
  \<comment> \<open>the same after 499 reads\<close>
  "dry_499 = dry\<lparr>mNumberConsecutiveEmptyFrames := 499\<rparr>"

definition full_499 :: "(Reel, real) State" where
  \<comment> \<open>after 499 empty reads, on a source that has a view again\<close>
  "full_499 = (started mono None)\<lparr>mNumberConsecutiveEmptyFrames := 499\<rparr>"

definition spent :: "(Reel, real) State" where
  \<comment> \<open>a producer for the range from 0 to 1 after two calls\<close>
  "spent = snd (checkIfRunningAndGetDatum reel (snd (checkIfRunningAndGetDatum reel
             (snd (DatumProducer reel mono 0 1 None)))))"

section \<open>What each step changes\<close>

lemmas stmt_defs = ret_def throw_exn_def lift_result_def then_do_def try_catch_def on_producer_def
  error_op_def error_exn_def log_op_def thrown_def

lemma release_frame:
  "releaseIfLastFrameReached ext s = (r, s') \<Longrightarrow>
     mGlobalCounter s' = mGlobalCounter s \<and> mNumberFramesToProcess s' = mNumberFramesToProcess s
     \<and> spVideoSeek s' = spVideoSeek s \<and> logged s' = logged s
     \<and> mNumberConsecutiveEmptyFrames s' = mNumberConsecutiveEmptyFrames s"
  by (auto simp: releaseIfLastFrameReached_def stmt_defs split: if_splits prod.splits)

lemma videoSeek_frame:
  "videoSeek ext s = (r, s') \<Longrightarrow>
     mGlobalCounter s' = mGlobalCounter s \<and> mNumberFramesToProcess s' = mNumberFramesToProcess s
     \<and> logged s' = logged s
     \<and> mNumberConsecutiveEmptyFrames s' = mNumberConsecutiveEmptyFrames s"
  by (auto simp: videoSeek_def stmt_defs Let_def split: if_splits prod.splits option.splits sum.splits)

lemma fetch_frame:
  "fetch ext s = (r, s') \<Longrightarrow>
     mGlobalCounter s' = mGlobalCounter s \<and> mNumberFramesToProcess s' = mNumberFramesToProcess s
     \<and> spVideoSeek s' = spVideoSeek s \<and> logged s' = logged s
     \<and> mNumberConsecutiveEmptyFrames s' = mNumberConsecutiveEmptyFrames s"
  by (auto simp: fetch_def stmt_defs split: if_splits prod.splits sum.splits)

lemma acquire_frame:
  assumes "acquire ext s = (r, s')"
  shows "mGlobalCounter s' = mGlobalCounter s \<and> mNumberFramesToProcess s' = mNumberFramesToProcess s
     \<and> logged s' = logged s
     \<and> mNumberConsecutiveEmptyFrames s' = mNumberConsecutiveEmptyFrames s"
proof -
  obtain r1 s1 where a: "releaseIfLastFrameReached ext s = (r1, s1)" by fastforce
  obtain r2 s2 where b: "videoSeek ext s1 = (r2, s2)" by fastforce
  obtain r3 s3 where c: "fetch ext s2 = (r3, s3)" by fastforce
  have "s' = s1 \<or> s' = s2 \<or> s' = s3"
    using assms a b c
    by (auto simp: acquire_def then_do_def ret_def Let_def split: sum.splits if_splits)
  then show ?thesis
    using release_frame [OF a] videoSeek_frame [OF b] fetch_frame [OF c] by auto
qed

lemma stallGuard_frame:
  "stallGuard b s = (r, s') \<Longrightarrow>
     mGlobalCounter s' = mGlobalCounter s \<and> mNumberFramesToProcess s' = mNumberFramesToProcess s
     \<and> spVideoSeek s' = spVideoSeek s \<and> logged s' = logged s
     \<and> spProducer s' = spProducer s \<and> issued s' = issued s"
  by (auto simp: stallGuard_def split: prod.splits)

lemma imageIntegrity_frame:
  "imageIntegrity ext d s = (r, s') \<Longrightarrow>
     mGlobalCounter s' = mGlobalCounter s \<and> mNumberFramesToProcess s' = mNumberFramesToProcess s
     \<and> spVideoSeek s' = spVideoSeek s
     \<and> mNumberConsecutiveEmptyFrames s' = mNumberConsecutiveEmptyFrames s
     \<and> spProducer s' = spProducer s \<and> issued s' = issued s"
  by (auto simp: imageIntegrity_def stmt_defs split: if_splits sum.splits)

lemma populate_frame:
  "populate ext n k cvMats cm ce ci s = (r, s') \<Longrightarrow>
     mGlobalCounter s' = mGlobalCounter s \<and> mNumberFramesToProcess s' = mNumberFramesToProcess s
     \<and> spVideoSeek s' = spVideoSeek s
     \<and> mNumberConsecutiveEmptyFrames s' = mNumberConsecutiveEmptyFrames s
     \<and> spProducer s' = spProducer s \<and> issued s' = issued s"
  by (auto simp: populate_def stmt_defs Let_def split: if_splits sum.splits prod.splits
      dest!: imageIntegrity_frame)

lemma stereoLoop_length:
  "stereoLoop i cvMats cm ce ci ds = Inr ds' \<Longrightarrow> length ds' = length ds"
proof (induction i cvMats cm ce ci ds rule: stereoLoop.induct)
  case (1 i cvMats cm ce ci ds)
  show ?case
  proof (cases "i < length ds")
    case True
    then obtain dI where a: "assignView i cvMats cm ce ci ds = Inr dI"
      and b: "stereoLoop (i + 1) cvMats cm ce ci (ds[i := dI]) = Inr ds'"
      using "1.prems" by (subst (asm) stereoLoop.simps) (auto split: sum.splits)
    from "1.IH" [OF True a b] show ?thesis by simp
  next
    case False
    then show ?thesis using "1.prems" by (subst (asm) stereoLoop.simps) simp
  qed
qed

lemma populate_length:
  "populate ext n k cvMats cm ce ci s = (Inr ds, s') \<Longrightarrow> length ds = length cvMats"
  by (auto simp: populate_def stmt_defs Let_def split: if_splits sum.splits prod.splits
      dest!: stereoLoop_length)

lemma delivered_Some: "delivered (Inr (b, Some ds)) = (ds \<noteq> [])"
  by (cases ds) auto

lemma deliver_frame:
  assumes "deliver ext run f s = (r, s')"
  shows "mNumberFramesToProcess s' = mNumberFramesToProcess s \<and> spVideoSeek s' = spVideoSeek s
     \<and> spProducer s' = spProducer s \<and> issued s' = issued s
     \<and> mGlobalCounter s' = (if delivered r then mGlobalCounter s + 1 else mGlobalCounter s)"
proof -
  obtain n k cvMats cm ce ci where f: "f = (n, k, cvMats, cm, ce, ci)"
    by (cases f) auto
  obtain r1 s1 where g: "stallGuard (cvMats = [] \<or> empty_Mat (cvMats ! 0)) s = (r1, s1)"
    by fastforce
  obtain r2 s2 where p: "populate ext n k cvMats cm ce ci s1 = (r2, s2)"
    by fastforce
  note g' = stallGuard_frame [OF g] and p' = populate_frame [OF p]
  have len: "\<And>ds. r2 = Inr ds \<Longrightarrow> cvMats \<noteq> [] \<Longrightarrow> ds \<noteq> []"
    using populate_length p by fastforce
  show ?thesis
    using assms f g p g' p' len
    by (auto simp: deliver_def then_do_def ret_def delivered_Some split: sum.splits if_splits)
qed

lemma getDatum_frame:
  assumes "getDatum ext s = (r, s')"
  shows "mNumberFramesToProcess s' = mNumberFramesToProcess s
     \<and> mGlobalCounter s' = (if delivered r then mGlobalCounter s + 1 else mGlobalCounter s)"
proof -
  obtain r1 s1 where a: "acquire ext s = (r1, s1)" by fastforce
  note a' = acquire_frame [OF a]
  show ?thesis
  proof (cases r1)
    case (Inl e)
    then show ?thesis using assms a a' by (auto simp: getDatum_def then_do_def)
  next
    case (Inr x)
    show ?thesis
    proof (cases x)
      case None
      then show ?thesis using assms a a' Inr by (auto simp: getDatum_def then_do_def ret_def)
    next
      case (Some f)
      then have "deliver ext True f s1 = (r, s')"
        using assms a Inr by (auto simp: getDatum_def then_do_def)
      from deliver_frame [OF this] a' show ?thesis by simp
    qed
  qed
qed

lemma call_frame:
  assumes "checkIfRunningAndGetDatum ext s = (r, s')"
  shows "mNumberFramesToProcess s' = mNumberFramesToProcess s
     \<and> mGlobalCounter s' = (if delivered r then mGlobalCounter s + 1 else mGlobalCounter s)"
proof -
  obtain r1 s1 where a: "getDatum ext s = (r1, s1)" by fastforce
  from getDatum_frame [OF a] assms a show ?thesis
    by (auto simp: checkIfRunningAndGetDatum_def stmt_defs split: sum.splits if_splits)
qed

lemma unat_ull_max: "unat ull_max = 18446744073709551615"
  by (simp add: ull_max_def unsigned_minus_1_eq_mask mask_eq_exp_minus_1)

lemma not_ull_max: "x \<noteq> ull_max \<longleftrightarrow> unat x < 18446744073709551615"
proof -
  have "unat x < 2 ^ 64" using unsigned_less [of x, where ?'a = nat] by simp
  moreover have "x = ull_max \<longleftrightarrow> unat x = unat ull_max"
    by (simp add: word_unat_eq_iff)
  ultimately show ?thesis by (auto simp: unat_ull_max)
qed

lemma past_last_frame:
  assumes closes: "closes_on_release ext"
    and "mNumberFramesToProcess s \<noteq> ull_max"
    and "mGlobalCounter s > mNumberFramesToProcess s"
  shows "\<not> delivered (fst (checkIfRunningAndGetDatum ext s))"
proof -
  obtain r p' where rel: "release ext (spProducer s) = (r, p')" by fastforce
  show ?thesis
  proof (cases r)
    case (Inl e)
    then show ?thesis using assms(2,3) rel
      by (simp add: checkIfRunningAndGetDatum_def getDatum_def acquire_def
          releaseIfLastFrameReached_def stmt_defs)
  next
    case (Inr u)
    then have "fst (release ext (spProducer s)) = Inr ()" using rel by simp
    with closes have "\<not> isOpened ext (snd (release ext (spProducer s)))"
      unfolding closes_on_release_def by blast
    then have "\<not> isOpened ext p'" using rel by simp
    then show ?thesis using assms(2,3) rel Inr
      by (simp add: checkIfRunningAndGetDatum_def getDatum_def acquire_def
          releaseIfLastFrameReached_def stmt_defs)
  qed
qed

lemma pull_bound:
  assumes closes: "closes_on_release ext"
  shows "mNumberFramesToProcess s \<noteq> ull_max \<Longrightarrow>
     unat (mGlobalCounter s) \<le> unat (mNumberFramesToProcess s) + 1 \<Longrightarrow>
     unat (mGlobalCounter (snd (pull ext ws s)))
       = unat (mGlobalCounter s) + length (filter delivered (fst (pull ext ws s)))
     \<and> unat (mGlobalCounter (snd (pull ext ws s))) \<le> unat (mNumberFramesToProcess s) + 1"
proof (induction ws arbitrary: s)
  case Nil
  then show ?case by simp
next
  case (Cons w ws)
  let ?s0 = "outside w s"
  obtain r s' where c: "checkIfRunningAndGetDatum ext ?s0 = (r, s')" by fastforce
  have o: "mNumberFramesToProcess ?s0 = mNumberFramesToProcess s"
    "mGlobalCounter ?s0 = mGlobalCounter s"
    by (simp_all add: outside_def)
  note fr = call_frame [OF c, unfolded o]
  have N: "unat (mNumberFramesToProcess s) < 2 ^ 64 - 1"
    using Cons.prems(1) by (simp add: not_ull_max)
  have step: "unat (mGlobalCounter s') = unat (mGlobalCounter s) + (if delivered r then 1 else 0)
      \<and> unat (mGlobalCounter s') \<le> unat (mNumberFramesToProcess s) + 1"
  proof (cases "delivered r")
    case True
    have "\<not> mGlobalCounter s > mNumberFramesToProcess s"
      using past_last_frame [OF closes, of ?s0] c True Cons.prems(1) o by auto
    then have le: "unat (mGlobalCounter s) \<le> unat (mNumberFramesToProcess s)"
      by (simp add: word_le_nat_alt not_less)
    then have "unat (mGlobalCounter s + 1) = unat (mGlobalCounter s) + 1"
      using N by (simp add: unat_word_ariths)
    then show ?thesis using True fr le by simp
  next
    case False
    then show ?thesis using fr Cons.prems(2) by simp
  qed
  have ih: "unat (mGlobalCounter (snd (pull ext ws s')))
       = unat (mGlobalCounter s') + length (filter delivered (fst (pull ext ws s')))
     \<and> unat (mGlobalCounter (snd (pull ext ws s'))) \<le> unat (mNumberFramesToProcess s') + 1"
    using Cons.IH [of s'] Cons.prems(1) fr step by simp
  show ?case using c ih step fr by (auto split: prod.splits)
qed

lemma ctor_state:
  assumes "DatumProducer ext p a b seek = (Inr (), s0)"
  shows "mGlobalCounter s0 = 0 \<and> mNumberFramesToProcess s0 = (if b \<noteq> ull_max then b - a else b)
     \<and> mNumberConsecutiveEmptyFrames s0 = 0 \<and> spVideoSeek s0 = seek"
  using assms
  by (auto simp: DatumProducer_def stmt_defs split: if_splits prod.splits sum.splits)

section \<open>The stall guard counts\<close>

lemma to_string_500: "to_string 500 = ''500''"
  by (simp add: to_string.simps digit_char_def)

lemma check_True:
  "checkIfTooManyConsecutiveEmptyFrames c True =
     (if 500 \<le> c + 1
      then (Inl (OpError (''Detected too many ('' @ to_string (unat (c + 1)) @ '') empty frames in a row.'')
                  181 ''checkIfTooManyConsecutiveEmptyFrames''), c + 1)
      else (Inr (), c + 1))"
  by (simp add: checkIfTooManyConsecutiveEmptyFrames_def error_exn_def Let_def)

lemma check_False: "checkIfTooManyConsecutiveEmptyFrames c False = (Inr (), 0)"
  by (simp add: checkIfTooManyConsecutiveEmptyFrames_def Let_def)

lemma reads_append:
  "reads c (xs @ ys) = (case reads c xs of (Inl e, c') \<Rightarrow> (Inl e, c') | (Inr u, c') \<Rightarrow> reads c' ys)"
  by (induction xs arbitrary: c) (auto split: prod.splits sum.splits)

lemma reads_run:
  "unat c + k < 500 \<Longrightarrow> reads c (replicate k True) = (Inr (), c + of_nat k)"
proof (induction k arbitrary: c)
  case 0
  then show ?case by simp
next
  case (Suc k)
  have a: "unat (c + 1) = unat c + 1"
    using Suc.prems by (simp add: unat_word_ariths)
  have b: "\<not> 500 \<le> c + 1"
    using Suc.prems a by (simp add: word_le_nat_alt)
  have "reads (c + 1) (replicate k True) = (Inr (), c + 1 + of_nat k)"
    using Suc.prems a by (intro Suc.IH) simp
  then show ?case using b by (simp add: check_True add.assoc)
qed

lemma reads_500:
  "reads 0 (replicate 500 True) =
     (Inl (OpError ''Detected too many (500) empty frames in a row.'' 181 ''checkIfTooManyConsecutiveEmptyFrames''), 500)"
proof -
  have "(500::nat) = Suc 499" by simp
  then have "replicate 500 True = replicate 499 True @ [True]"
    by (simp only: replicate_Suc replicate_append_same)
  moreover have "reads 0 (replicate 499 True) = (Inr (), 0 + of_nat 499)"
    by (rule reads_run) simp
  ultimately show ?thesis
    by (simp add: reads_append check_True to_string_500)
qed

section \<open>The seek step and what follows it\<close>


lemma videoSeek_still:
  "spVideoSeek s = Some (paused, inc) \<Longrightarrow> inc - (if paused then 1 else 0) = 0 \<Longrightarrow>
     videoSeek ext s = (Inr (), s\<lparr>spVideoSeek := Some (paused, 0)\<rparr>)"
  by (simp add: videoSeek_def stmt_defs Let_def)

lemma videoSeek_move:
  assumes "spVideoSeek s = Some (paused, inc)" and "inc - (if paused then 1 else 0) \<noteq> 0"
    and "get_cap ext CV_CAP_PROP_POS_FRAMES (spProducer s) = (Inr pos, p1)"
    and "set_cap ext CV_CAP_PROP_POS_FRAMES
           (double_add ext pos (double_of_int ext (inc - (if paused then 1 else 0)))) p1 = (r, p2)"
  shows "videoSeek ext s =
     (case r of
        Inl w \<Rightarrow> (Inl (StdException w),
                  s\<lparr>spProducer := p2,
                    issued := issued s @ [CallGet CV_CAP_PROP_POS_FRAMES,
                      CallSet CV_CAP_PROP_POS_FRAMES
                        (double_add ext pos (double_of_int ext (inc - (if paused then 1 else 0))))]\<rparr>)
      | Inr u \<Rightarrow> (Inr (),
                  s\<lparr>spProducer := p2,
                    issued := issued s @ [CallGet CV_CAP_PROP_POS_FRAMES,
                      CallSet CV_CAP_PROP_POS_FRAMES
                        (double_add ext pos (double_of_int ext (inc - (if paused then 1 else 0))))],
                    spVideoSeek := Some (paused, 0)\<rparr>))"
  using assms by (simp add: videoSeek_def stmt_defs Let_def split: sum.splits)

lemma fetch_issued:
  "fetch ext s = (r, s') \<Longrightarrow> \<exists>t. issued s' = issued s @ t \<and> filter is_move t = []"
  by (auto simp: fetch_def stmt_defs split: prod.splits sum.splits)


lemma call_state:
  "snd (checkIfRunningAndGetDatum ext s) = snd (getDatum ext s)"
  by (cases "getDatum ext s")
    (auto simp: checkIfRunningAndGetDatum_def stmt_defs split: sum.splits)

lemma getDatum_open:
  assumes "releaseIfLastFrameReached ext s = (Inr (), s1)" and "isOpened ext (spProducer s1)"
  shows "getDatum ext s =
     (case videoSeek ext s1 of
        (Inl e, s2) \<Rightarrow> (Inl e, s2)
      | (Inr u, s2) \<Rightarrow>
          (case fetch ext s2 of
             (Inl e, s3) \<Rightarrow> (Inl e, s3)
           | (Inr f, s3) \<Rightarrow> deliver ext True f s3))"
  using assms
  by (simp add: getDatum_def acquire_def then_do_def ret_def split: prod.splits sum.splits)

lemma after_seek:
  assumes "releaseIfLastFrameReached ext s = (Inr (), s1)" and "isOpened ext (spProducer s1)"
    and "videoSeek ext s1 = (r2, s2)"
  shows "\<exists>t. issued (snd (getDatum ext s)) = issued s2 @ t \<and> filter is_move t = []"
    and "spVideoSeek (snd (getDatum ext s)) = spVideoSeek s2"
proof -
  obtain r3 s3 where f: "fetch ext s2 = (r3, s3)" by fastforce
  note f1 = fetch_frame [OF f] and f2 = fetch_issued [OF f]
  show "\<exists>t. issued (snd (getDatum ext s)) = issued s2 @ t \<and> filter is_move t = []"
  proof (cases r2)
    case (Inl e)
    then show ?thesis using assms by (simp add: getDatum_open)
  next
    case a: (Inr u)
    show ?thesis
    proof (cases r3)
      case (Inl e)
      then show ?thesis using assms a f f2 by (simp add: getDatum_open)
    next
      case (Inr x)
      obtain r4 s4 where d: "deliver ext True x s3 = (r4, s4)" by fastforce
      from deliver_frame [OF d] Inr assms a f f2 d show ?thesis
        by (simp add: getDatum_open)
    qed
  qed
  show "spVideoSeek (snd (getDatum ext s)) = spVideoSeek s2"
  proof (cases r2)
    case (Inl e)
    then show ?thesis using assms by (simp add: getDatum_open)
  next
    case a: (Inr u)
    show ?thesis
    proof (cases r3)
      case (Inl e)
      then show ?thesis using assms a f f1 by (simp add: getDatum_open)
    next
      case (Inr x)
      obtain r4 s4 where d: "deliver ext True x s3 = (r4, s4)" by fastforce
      from deliver_frame [OF d] Inr assms a f f1 d show ?thesis
        by (simp add: getDatum_open)
    qed
  qed
qed

section \<open>Filling the batch\<close>

lemma calibration_covers_iff:
  "calibration_covers cvMats cm ce ci \<longleftrightarrow>
     (\<forall>i<length cvMats. i < length cm \<longrightarrow> i < length ce \<and> i < length ci)"
proof
  assume "calibration_covers cvMats cm ce ci"
  then show "\<forall>i<length cvMats. i < length cm \<longrightarrow> i < length ce \<and> i < length ci"
    by (auto simp: calibration_covers_def)
next
  assume r: "\<forall>i<length cvMats. i < length cm \<longrightarrow> i < length ce \<and> i < length ci"
  have "min (length cvMats) (length cm) \<le> length ce"
  proof (rule ccontr)
    assume "\<not> min (length cvMats) (length cm) \<le> length ce"
    then have "length ce < length cvMats" "length ce < length cm" by simp_all
    with r show False by blast
  qed
  moreover have "min (length cvMats) (length cm) \<le> length ci"
  proof (rule ccontr)
    assume "\<not> min (length cvMats) (length cm) \<le> length ci"
    then have "length ci < length cvMats" "length ci < length cm" by simp_all
    with r show False by blast
  qed
  ultimately show "calibration_covers cvMats cm ce ci"
    by (simp add: calibration_covers_def)
qed

lemma copyCalibration_Inr:
  "i < length cm \<Longrightarrow> i < length ce \<Longrightarrow> i < length ci \<Longrightarrow>
     copyCalibration i cm ce ci d
       = Inr (d\<lparr>cameraMatrix := cm ! i, cameraExtrinsics := ce ! i, cameraIntrinsics := ci ! i\<rparr>)"
  by (simp add: copyCalibration_def vec_at_def)

lemma copyCalibration_Inl:
  "i < length cm \<Longrightarrow> \<not> (i < length ce \<and> i < length ci) \<Longrightarrow>
     copyCalibration i cm ce ci d = Inl OutOfRange"
  by (auto simp: copyCalibration_def vec_at_def)

lemma copyCalibration_keeps:
  "copyCalibration i cm ce ci d = Inr d' \<Longrightarrow>
     name d' = name d \<and> frameNumber d' = frameNumber d \<and> cvInputData d' = cvInputData d
     \<and> cvOutputData d' = cvOutputData d \<and> i < length ce \<and> i < length ci"
  by (auto simp: copyCalibration_def vec_at_def split: if_splits)

lemma fillFirst_Inr:
  "fillFirst n k cvMats cm ce ci d = Inr d' \<Longrightarrow>
     name d' = n \<and> frameNumber d' = k \<and> cvInputData d' = cvMats ! 0
     \<and> (cm \<noteq> [] \<longrightarrow> ce \<noteq> [] \<and> ci \<noteq> [])"
  by (auto simp: fillFirst_def vec_at_def Let_def split: if_splits dest!: copyCalibration_keeps)

lemma fillFirst_covers:
  "cvMats \<noteq> [] \<Longrightarrow> cm \<noteq> [] \<longrightarrow> ce \<noteq> [] \<and> ci \<noteq> [] \<Longrightarrow>
     \<exists>d'. fillFirst n k cvMats cm ce ci d = Inr d'"
  by (auto simp: fillFirst_def vec_at_def Let_def copyCalibration_Inr)

lemma fillFirst_Inl:
  "cvMats \<noteq> [] \<Longrightarrow> cm \<noteq> [] \<Longrightarrow> ce = [] \<or> ci = [] \<Longrightarrow>
     fillFirst n k cvMats cm ce ci d = Inl OutOfRange"
  by (auto simp: fillFirst_def vec_at_def Let_def copyCalibration_Inl)

lemma imageIntegrity_Inr:
  "imageIntegrity ext d s = (Inr d', s') \<Longrightarrow>
     name d' = name d \<and> frameNumber d' = frameNumber d \<and> cvOutputData d' = cvInputData d'
     \<and> (channels (cvInputData d) = 3 \<and> cvInputData d' = cvInputData d \<and> logged s' = logged s
        \<or> channels (cvInputData d) = 1 \<and> cvtColor ext (cvInputData d) = Inr (cvInputData d')
          \<and> logged s' = logged s @ [commonMessage @ '' Converting grey image into BGR.''])"
  by (auto simp: imageIntegrity_def stmt_defs split: if_splits sum.splits)

lemma imageIntegrity_bgr:
  "channels (cvInputData d) = 3 \<Longrightarrow>
     imageIntegrity ext d s = (Inr (d\<lparr>cvOutputData := cvInputData d\<rparr>), s)"
  by (simp add: imageIntegrity_def stmt_defs)

lemma imageIntegrity_other:
  "channels (cvInputData d) \<noteq> 3 \<Longrightarrow> channels (cvInputData d) \<noteq> 1 \<Longrightarrow>
     imageIntegrity ext d s = (Inl (OpError commonMessage 133 ''checkIfRunningAndGetDatum''), s)"
  by (simp add: imageIntegrity_def stmt_defs)

lemma imageIntegrity_in_range:
  "fst (imageIntegrity ext d s) \<noteq> Inl OutOfRange"
  by (auto simp: imageIntegrity_def stmt_defs split: if_splits sum.splits)

lemma assignView_Inr:
  assumes "assignView i cvMats cm ce ci ds = Inr dI"
  shows "i < length ds \<and> name dI = name (ds ! 0) \<and> frameNumber dI = frameNumber (ds ! 0)
     \<and> cvInputData dI = cvMats ! i \<and> cvOutputData dI = cvMats ! i
     \<and> (i < length cm \<longrightarrow> i < length ce \<and> i < length ci)"
  using assms
  by (auto simp: assignView_def vec_at_def Let_def split: if_splits dest!: copyCalibration_keeps)

lemma assignView_covers:
  "i < length ds \<Longrightarrow> i < length cvMats \<Longrightarrow> (i < length cm \<longrightarrow> i < length ce \<and> i < length ci) \<Longrightarrow>
     \<exists>dI. assignView i cvMats cm ce ci ds = Inr dI"
  by (auto simp: assignView_def vec_at_def Let_def copyCalibration_Inr)

lemma assignView_Inl:
  "i < length ds \<Longrightarrow> i < length cvMats \<Longrightarrow> i < length cm \<Longrightarrow> \<not> (i < length ce \<and> i < length ci) \<Longrightarrow>
     assignView i cvMats cm ce ci ds = Inl OutOfRange"
  by (auto simp: assignView_def vec_at_def Let_def copyCalibration_Inl)

lemma stereoLoop_result:
  "1 \<le> i \<Longrightarrow> stereoLoop i cvMats cm ce ci ds = Inr ds' \<Longrightarrow>
     length ds' = length ds \<and> (\<forall>j<i. ds' ! j = ds ! j)
     \<and> (\<forall>j. i \<le> j \<and> j < length ds \<longrightarrow>
           name (ds' ! j) = name (ds ! 0) \<and> frameNumber (ds' ! j) = frameNumber (ds ! 0)
           \<and> cvInputData (ds' ! j) = cvMats ! j \<and> cvOutputData (ds' ! j) = cvMats ! j
           \<and> (j < length cm \<longrightarrow> j < length ce \<and> j < length ci))"
proof (induction i cvMats cm ce ci ds rule: stereoLoop.induct)
  case (1 i cvMats cm ce ci ds)
  show ?case
  proof (cases "i < length ds")
    case True
    then obtain dI where a: "assignView i cvMats cm ce ci ds = Inr dI"
      and b: "stereoLoop (i + 1) cvMats cm ce ci (ds[i := dI]) = Inr ds'"
      using "1.prems" by (subst (asm) stereoLoop.simps) (auto split: sum.splits)
    have ih: "length ds' = length (ds[i := dI]) \<and> (\<forall>j<i + 1. ds' ! j = ds[i := dI] ! j)
       \<and> (\<forall>j. i + 1 \<le> j \<and> j < length (ds[i := dI]) \<longrightarrow>
           name (ds' ! j) = name (ds[i := dI] ! 0) \<and> frameNumber (ds' ! j) = frameNumber (ds[i := dI] ! 0)
           \<and> cvInputData (ds' ! j) = cvMats ! j \<and> cvOutputData (ds' ! j) = cvMats ! j
           \<and> (j < length cm \<longrightarrow> j < length ce \<and> j < length ci))"
      using "1.IH" [OF True a _ b] by simp
    note v = assignView_Inr [OF a]
    have z: "ds[i := dI] ! 0 = ds ! 0" using "1.prems"(1) by simp
    have at_i: "ds' ! i = dI" using ih True by simp
    show ?thesis
    proof (intro conjI allI impI)
      show "length ds' = length ds" using ih by simp
    next
      fix j assume "j < i"
      then show "ds' ! j = ds ! j" using ih by simp
    next
      fix j assume j: "i \<le> j \<and> j < length ds"
      show "name (ds' ! j) = name (ds ! 0)"
        using j ih v at_i z by (cases "j = i") auto
      show "frameNumber (ds' ! j) = frameNumber (ds ! 0)"
        using j ih v at_i z by (cases "j = i") auto
      show "cvInputData (ds' ! j) = cvMats ! j"
        using j ih v at_i z by (cases "j = i") auto
      show "cvOutputData (ds' ! j) = cvMats ! j"
        using j ih v at_i z by (cases "j = i") auto
      show "j < length ce" if "j < length cm"
        using that j ih v at_i z by (cases "j = i") auto
      show "j < length ci" if "j < length cm"
        using that j ih v at_i z by (cases "j = i") auto
    qed
  next
    case False
    then show ?thesis using "1.prems" by (subst (asm) stereoLoop.simps) auto
  qed
qed

lemma stereoLoop_covers:
  "length cvMats = length ds \<Longrightarrow> calibration_covers cvMats cm ce ci \<Longrightarrow>
     \<exists>ds'. stereoLoop i cvMats cm ce ci ds = Inr ds'"
proof (induction i cvMats cm ce ci ds rule: stereoLoop.induct)
  case (1 i cvMats cm ce ci ds)
  show ?case
  proof (cases "i < length ds")
    case True
    then obtain dI where a: "assignView i cvMats cm ce ci ds = Inr dI"
      using assignView_covers [of i ds cvMats cm ce ci] "1.prems"
      by (auto simp: calibration_covers_iff)
    from "1.IH" [OF True a] "1.prems" obtain ds' where
      "stereoLoop (i + 1) cvMats cm ce ci (ds[i := dI]) = Inr ds'" by auto
    then show ?thesis using True a by (subst stereoLoop.simps) simp
  next
    case False
    then show ?thesis by (subst stereoLoop.simps) simp
  qed
qed

lemma stereoLoop_Inl:
  "length cvMats = length ds \<Longrightarrow>
     \<exists>j. i \<le> j \<and> j < length ds \<and> j < length cm \<and> \<not> (j < length ce \<and> j < length ci) \<Longrightarrow>
     stereoLoop i cvMats cm ce ci ds = Inl OutOfRange"
proof (induction i cvMats cm ce ci ds rule: stereoLoop.induct)
  case (1 i cvMats cm ce ci ds)
  from "1.prems"(2) obtain j where j: "i \<le> j" "j < length ds" "j < length cm"
      "\<not> (j < length ce \<and> j < length ci)" by blast
  then have True: "i < length ds" by simp
  show ?case
  proof (cases "assignView i cvMats cm ce ci ds")
    case (Inl e)
    have "i < length cm \<and> \<not> (i < length ce \<and> i < length ci)"
      using assignView_covers [of i ds cvMats cm ce ci] True "1.prems"(1) Inl by auto
    then have "e = OutOfRange"
      using assignView_Inl [of i ds cvMats cm ce ci] True "1.prems"(1) Inl by auto
    then show ?thesis using True Inl by (subst stereoLoop.simps) simp
  next
    case (Inr dI)
    have "j \<noteq> i" using assignView_Inr [OF Inr] j by auto
    then have "\<exists>j. i + 1 \<le> j \<and> j < length (ds[i := dI]) \<and> j < length cm
        \<and> \<not> (j < length ce \<and> j < length ci)"
      using j by (intro exI [of _ j]) auto
    from "1.IH" [OF True Inr _ this] "1.prems"(1)
    have "stereoLoop (i + 1) cvMats cm ce ci (ds[i := dI]) = Inl OutOfRange" by simp
    then show ?thesis using True Inr by (subst stereoLoop.simps) simp
  qed
qed

lemma populate_unfold:
  assumes "cvMats \<noteq> []"
  shows "populate ext n k cvMats cm ce ci s =
     (case fillFirst n k cvMats cm ce ci Datum_default of
        Inl e \<Rightarrow> (Inl e, s)
      | Inr d \<Rightarrow>
          (case imageIntegrity ext d s of
             (Inl e, s') \<Rightarrow> (Inl e, s')
           | (Inr d', s') \<Rightarrow>
               (if length cvMats > 1
                then (stereoLoop 1 cvMats cm ce ci ((replicate (length cvMats) Datum_default)[0 := d']), s')
                else (Inr ((replicate (length cvMats) Datum_default)[0 := d']), s'))))"
  using assms
  by (simp add: populate_def stmt_defs Let_def vec_at_def split: sum.splits prod.splits)

lemma populate_result:
  assumes "cvMats \<noteq> []" and "populate ext n k cvMats cm ce ci s = (Inr ds, s')"
  shows "length ds = length cvMats"
    and "\<forall>j<length ds. name (ds ! j) = n \<and> frameNumber (ds ! j) = k"
    and "\<forall>j. 1 \<le> j \<and> j < length ds \<longrightarrow> cvInputData (ds ! j) = cvMats ! j \<and> cvOutputData (ds ! j) = cvMats ! j"
    and "cvOutputData (ds ! 0) = cvInputData (ds ! 0)"
    and "channels (cvMats ! 0) = 3 \<and> cvInputData (ds ! 0) = cvMats ! 0 \<and> logged s' = logged s
        \<or> channels (cvMats ! 0) = 1 \<and> cvtColor ext (cvMats ! 0) = Inr (cvInputData (ds ! 0))
          \<and> logged s' = logged s @ [commonMessage @ '' Converting grey image into BGR.'']"
    and "calibration_covers cvMats cm ce ci"
proof -
  let ?ds0 = "replicate (length cvMats) Datum_default"
  obtain d where f: "fillFirst n k cvMats cm ce ci Datum_default = Inr d"
    using assms by (cases "fillFirst n k cvMats cm ce ci Datum_default") (auto simp: populate_unfold)
  obtain d' where i: "imageIntegrity ext d s = (Inr d', s')"
    using assms f
    by (cases "imageIntegrity ext d s")
      (auto simp: populate_unfold split: sum.splits if_splits)
  note F = fillFirst_Inr [OF f] and I = imageIntegrity_Inr [OF i]
  have len0: "0 < length ?ds0" using assms(1) by simp
  have d0: "(?ds0[0 := d']) ! 0 = d'" using len0 by simp
  have nm: "name d' = n" "frameNumber d' = k" using F I by simp_all
  have res: "length ds = length cvMats \<and> ds ! 0 = d'
      \<and> (\<forall>j. 1 \<le> j \<and> j < length ds \<longrightarrow>
           name (ds ! j) = n \<and> frameNumber (ds ! j) = k
           \<and> cvInputData (ds ! j) = cvMats ! j \<and> cvOutputData (ds ! j) = cvMats ! j
           \<and> (j < length cm \<longrightarrow> j < length ce \<and> j < length ci))"
  proof (cases "length cvMats > 1")
    case True
    then have l: "stereoLoop 1 cvMats cm ce ci (?ds0[0 := d']) = Inr ds"
      using assms f i by (simp add: populate_unfold)
    from stereoLoop_result [OF _ l] d0 nm show ?thesis by simp
  next
    case False
    then have "ds = ?ds0[0 := d']"
      using assms f i by (simp add: populate_unfold)
    then show ?thesis using False d0 by auto
  qed
  show "length ds = length cvMats" using res by simp
  show "\<forall>j<length ds. name (ds ! j) = n \<and> frameNumber (ds ! j) = k"
  proof (intro allI impI)
    fix j assume "j < length ds"
    then show "name (ds ! j) = n \<and> frameNumber (ds ! j) = k"
      using res nm by (cases "j = 0") auto
  qed
  show "\<forall>j. 1 \<le> j \<and> j < length ds \<longrightarrow> cvInputData (ds ! j) = cvMats ! j \<and> cvOutputData (ds ! j) = cvMats ! j"
    using res by simp
  show "cvOutputData (ds ! 0) = cvInputData (ds ! 0)" using res I by simp
  show "channels (cvMats ! 0) = 3 \<and> cvInputData (ds ! 0) = cvMats ! 0 \<and> logged s' = logged s
        \<or> channels (cvMats ! 0) = 1 \<and> cvtColor ext (cvMats ! 0) = Inr (cvInputData (ds ! 0))
          \<and> logged s' = logged s @ [commonMessage @ '' Converting grey image into BGR.'']"
    using res I F by auto
  show "calibration_covers cvMats cm ce ci"
    unfolding calibration_covers_iff
  proof (intro allI impI)
    fix j assume j: "j < length cvMats" "j < length cm"
    show "j < length ce \<and> j < length ci"
    proof (cases "j = 0")
      case True
      then show ?thesis using F j by auto
    next
      case False
      then show ?thesis using res j by auto
    qed
  qed
qed

lemma populate_in_range:
  assumes "cvMats \<noteq> []" and "calibration_covers cvMats cm ce ci"
  shows "fst (populate ext n k cvMats cm ce ci s) \<noteq> Inl OutOfRange"
proof -
  let ?ds0 = "replicate (length cvMats) Datum_default"
  have "cm \<noteq> [] \<longrightarrow> ce \<noteq> [] \<and> ci \<noteq> []"
    using assms by (auto simp: calibration_covers_iff)
  then obtain d where f: "fillFirst n k cvMats cm ce ci Datum_default = Inr d"
    using fillFirst_covers [OF assms(1)] by blast
  obtain r s' where i: "imageIntegrity ext d s = (r, s')" by fastforce
  show ?thesis
  proof (cases r)
    case (Inl e)
    then show ?thesis using imageIntegrity_in_range [of ext d s] assms(1) f i
      by (simp add: populate_unfold)
  next
    case (Inr d')
    obtain ds' where "stereoLoop 1 cvMats cm ce ci (?ds0[0 := d']) = Inr ds'"
      using stereoLoop_covers [of cvMats "?ds0[0 := d']" cm ce ci 1] assms(2) by auto
    then show ?thesis using assms(1) f i Inr by (simp add: populate_unfold)
  qed
qed

lemma populate_out_of_range:
  assumes "cvMats \<noteq> []" and "\<not> calibration_covers cvMats cm ce ci"
    and "channels (cvMats ! 0) = 3 \<or> (cm \<noteq> [] \<and> (ce = [] \<or> ci = []))"
  shows "populate ext n k cvMats cm ce ci s = (Inl OutOfRange, s)"
proof (cases "cm \<noteq> [] \<and> (ce = [] \<or> ci = [])")
  case True
  then show ?thesis using fillFirst_Inl [OF assms(1), of cm ce ci] assms(1)
    by (auto simp: populate_unfold)
next
  case False
  let ?ds0 = "replicate (length cvMats) Datum_default"
  from False obtain d where f: "fillFirst n k cvMats cm ce ci Datum_default = Inr d"
    using fillFirst_covers [OF assms(1), of cm ce ci] by blast
  have c: "channels (cvInputData d) = 3" using fillFirst_Inr [OF f] assms(3) False by auto
  obtain j where j: "j < length cvMats" "j < length cm" "\<not> (j < length ce \<and> j < length ci)"
    using assms(2) by (auto simp: calibration_covers_iff)
  have "j \<noteq> 0" using j False by (cases "j = 0") auto
  then have big: "length cvMats > 1" and ex: "\<exists>j. 1 \<le> j \<and> j < length (?ds0[0 := d\<lparr>cvOutputData := cvInputData d\<rparr>])
      \<and> j < length cm \<and> \<not> (j < length ce \<and> j < length ci)"
    using j by (auto intro!: exI [of _ j])
  have "stereoLoop 1 cvMats cm ce ci (?ds0[0 := d\<lparr>cvOutputData := cvInputData d\<rparr>]) = Inl OutOfRange"
    by (rule stereoLoop_Inl [OF _ ex]) simp
  then show ?thesis using assms(1) f big imageIntegrity_bgr [OF c, of ext s]
    by (simp add: populate_unfold)
qed

lemma getDatum_fetched:
  assumes "acquire ext s = (Inr (Some f), s')"
  shows "getDatum ext s = deliver ext True f s'"
  using assms by (simp add: getDatum_def then_do_def)

lemma deliver_unfold:
  "deliver ext True (n, k, cvMats, cm, ce, ci) s =
     (case stallGuard (cvMats = [] \<or> empty_Mat (cvMats ! 0)) s of
        (Inl e, s1) \<Rightarrow> (Inl e, s1)
      | (Inr u, s1) \<Rightarrow>
          (if cvMats \<noteq> []
           then (case populate ext n k cvMats cm ce ci s1 of
                   (Inl e, s2) \<Rightarrow> (Inl e, s2)
                 | (Inr ds, s2) \<Rightarrow>
                     (if empty_Mat (cvInputData (ds ! 0)) then (Inr (True, None), s2)
                      else (Inr (True, Some ds), s2\<lparr>mGlobalCounter := mGlobalCounter s2 + 1\<rparr>)))
           else (Inr (True, Some []), s1)))"
  by (simp add: deliver_def then_do_def ret_def split: prod.splits sum.splits)

lemma call_Inr:
  "checkIfRunningAndGetDatum ext s = (Inr r, s') \<longleftrightarrow> getDatum ext s = (Inr r, s')"
  by (cases "getDatum ext s")
    (auto simp: checkIfRunningAndGetDatum_def stmt_defs split: sum.splits)

lemma call_Inl:
  "getDatum ext s = (Inl e, s') \<Longrightarrow>
     checkIfRunningAndGetDatum ext s
       = (if caught e then (Inl (OpError (what e) 168 ''checkIfRunningAndGetDatum''), s')
          else (Inl e, s'))"
  by (simp add: checkIfRunningAndGetDatum_def stmt_defs)

lemma stallGuard_caught:
  "stallGuard b s = (Inl e, s') \<Longrightarrow> caught e"
  by (auto simp: stallGuard_def checkIfTooManyConsecutiveEmptyFrames_def error_exn_def Let_def
      split: prod.splits if_splits)

lemma call_delivers:
  assumes "acquire ext s = (Inr (Some (n, k, cvMats, cm, ce, ci)), sa)" and "cvMats \<noteq> []"
    and "checkIfRunningAndGetDatum ext s = (Inr (running, Some ds), s')"
  shows "\<exists>sb sc. stallGuard (cvMats = [] \<or> empty_Mat (cvMats ! 0)) sa = (Inr (), sb)
     \<and> populate ext n k cvMats cm ce ci sb = (Inr ds, sc)
     \<and> \<not> empty_Mat (cvInputData (ds ! 0)) \<and> running
     \<and> s' = sc\<lparr>mGlobalCounter := mGlobalCounter sc + 1\<rparr>"
proof -
  have d: "deliver ext True (n, k, cvMats, cm, ce, ci) sa = (Inr (running, Some ds), s')"
    using assms(1,3) by (simp add: call_Inr getDatum_fetched)
  obtain r1 sb where g: "stallGuard (cvMats = [] \<or> empty_Mat (cvMats ! 0)) sa = (r1, sb)"
    by fastforce
  obtain r2 sc where p: "populate ext n k cvMats cm ce ci sb = (r2, sc)"
    by fastforce
  show ?thesis
    using d g p assms(2)
    by (auto simp: deliver_unfold split: sum.splits if_splits)
qed

section \<open>The reads of the pull loop\<close>

lemma stallGuard_counter:
  "stallGuard b s = (r, s') \<Longrightarrow>
     mNumberConsecutiveEmptyFrames s'
       = snd (checkIfTooManyConsecutiveEmptyFrames (mNumberConsecutiveEmptyFrames s) b)
     \<and> r = fst (checkIfTooManyConsecutiveEmptyFrames (mNumberConsecutiveEmptyFrames s) b)"
  by (auto simp: stallGuard_def split: prod.splits)

lemma deliver_counter:
  assumes "deliver ext True (n, k, cvMats, cm, ce, ci) sa = (r, s')"
  shows "mNumberConsecutiveEmptyFrames s'
     = snd (checkIfTooManyConsecutiveEmptyFrames (mNumberConsecutiveEmptyFrames sa)
              (cvMats = [] \<or> empty_Mat (cvMats ! 0)))"
proof -
  obtain r1 sb where g: "stallGuard (cvMats = [] \<or> empty_Mat (cvMats ! 0)) sa = (r1, sb)"
    by fastforce
  obtain r2 sc where p: "populate ext n k cvMats cm ce ci sb = (r2, sc)"
    by fastforce
  have "mNumberConsecutiveEmptyFrames s' = mNumberConsecutiveEmptyFrames sb"
    using assms g p populate_frame [OF p]
    by (auto simp: deliver_unfold split: sum.splits if_splits)
  then show ?thesis using stallGuard_counter [OF g] by simp
qed

lemma call_counter:
  "mNumberConsecutiveEmptyFrames (snd (checkIfRunningAndGetDatum ext s))
     = counts (mNumberConsecutiveEmptyFrames s) (read_of ext s)"
proof -
  obtain r1 sa where a: "acquire ext s = (r1, sa)" by fastforce
  note fr = acquire_frame [OF a]
  show ?thesis
  proof (cases r1)
    case (Inl e)
    then show ?thesis using a fr
      by (simp add: call_state getDatum_def then_do_def read_of_def)
  next
    case (Inr x)
    show ?thesis
    proof (cases x)
      case None
      then show ?thesis using a fr Inr
        by (simp add: call_state getDatum_def then_do_def ret_def read_of_def)
    next
      case (Some f)
      obtain n k cvMats cm ce ci where f: "f = (n, k, cvMats, cm, ce, ci)"
        by (cases f) auto
      obtain r s' where d: "deliver ext True (n, k, cvMats, cm, ce, ci) sa = (r, s')"
        by fastforce
      have "getDatum ext s = (r, s')"
        using a Inr Some f d by (simp add: getDatum_fetched)
      then show ?thesis
        using deliver_counter [OF d] a Inr Some f fr
        by (simp add: call_state read_of_def)
    qed
  qed
qed

lemma counts_append: "counts c (xs @ ys) = counts (counts c xs) ys"
  by (induction xs arbitrary: c) auto

lemma pull_counter:
  "mNumberConsecutiveEmptyFrames (snd (pull ext ws s))
     = counts (mNumberConsecutiveEmptyFrames s) (pull_reads ext ws s)"
proof (induction ws arbitrary: s)
  case Nil
  then show ?case by simp
next
  case (Cons w ws)
  have o: "mNumberConsecutiveEmptyFrames (outside w s) = mNumberConsecutiveEmptyFrames s"
    by (simp add: outside_def)
  have p: "snd (pull ext (w # ws) s)
      = snd (pull ext ws (snd (checkIfRunningAndGetDatum ext (outside w s))))"
    by (simp split: prod.splits)
  show ?case
    using Cons.IH [of "snd (checkIfRunningAndGetDatum ext (outside w s))"]
      call_counter [of ext "outside w s"] o
    by (simp only: p pull_reads.simps counts_append)
qed

lemma counts_run: "counts c (replicate k True) = c + of_nat k"
  by (induction k arbitrary: c) (simp_all add: check_True)

lemma counts_reset: "counts c (bs @ False # rest) = counts 0 rest"
  by (simp add: counts_append check_False)

lemma stall_at_499:
  "checkIfTooManyConsecutiveEmptyFrames 499 True
     = (Inl (OpError ''Detected too many (500) empty frames in a row.'' 181
               ''checkIfTooManyConsecutiveEmptyFrames''), 500)"
  by (simp add: check_True to_string_500)

lemma no_stall_below:
  assumes "unat c < 499"
  shows "checkIfTooManyConsecutiveEmptyFrames c True = (Inr (), c + 1)"
proof -
  have "unat (c + 1) = unat c + 1" using assms by (simp add: unat_word_ariths)
  then have "\<not> 500 \<le> c + 1" using assms by (simp add: word_le_nat_alt)
  then show ?thesis by (simp add: check_True)
qed

lemma call_empty_read:
  assumes "acquire ext s = (Inr (Some (n, fr, cvMats, cm, ce, ci)), sa)"
    and "cvMats = [] \<or> empty_Mat (cvMats ! 0)"
  shows "unat (mNumberConsecutiveEmptyFrames s) < 499 \<Longrightarrow>
      fst (stallGuard True sa) = Inr ()
      \<and> mNumberConsecutiveEmptyFrames (snd (checkIfRunningAndGetDatum ext s))
          = mNumberConsecutiveEmptyFrames s + 1
      \<and> (cvMats = [] \<longrightarrow> fst (checkIfRunningAndGetDatum ext s) = Inr (True, Some []))"
    and "mNumberConsecutiveEmptyFrames s = 499 \<Longrightarrow>
      checkIfRunningAndGetDatum ext s
        = (Inl (OpError ''Detected too many (500) empty frames in a row.'' 168
                  ''checkIfRunningAndGetDatum''),
           sa\<lparr>mNumberConsecutiveEmptyFrames := 500\<rparr>)"
proof -
  have m: "mNumberConsecutiveEmptyFrames sa = mNumberConsecutiveEmptyFrames s"
    using acquire_frame [OF assms(1)] by simp
  have gd: "getDatum ext s = deliver ext True (n, fr, cvMats, cm, ce, ci) sa"
    using assms(1) by (rule getDatum_fetched)
  have rd: "read_of ext s = [True]"
    using assms by (auto simp: read_of_def)
  {
    assume b: "unat (mNumberConsecutiveEmptyFrames s) < 499"
    note ns = no_stall_below [OF b]
    have g: "stallGuard True sa = (Inr (), sa\<lparr>mNumberConsecutiveEmptyFrames := mNumberConsecutiveEmptyFrames s + 1\<rparr>)"
      using ns m by (simp add: stallGuard_def)
    have c: "mNumberConsecutiveEmptyFrames (snd (checkIfRunningAndGetDatum ext s))
          = mNumberConsecutiveEmptyFrames s + 1"
      using call_counter [of ext s] rd ns by simp
    have e: "fst (checkIfRunningAndGetDatum ext s) = Inr (True, Some [])" if "cvMats = []"
    proof -
      have "getDatum ext s = (Inr (True, Some []),
          sa\<lparr>mNumberConsecutiveEmptyFrames := mNumberConsecutiveEmptyFrames s + 1\<rparr>)"
        using gd g that by (simp add: deliver_unfold)
      then show ?thesis by (simp add: call_Inr [THEN iffD2])
    qed
    show "fst (stallGuard True sa) = Inr ()
      \<and> mNumberConsecutiveEmptyFrames (snd (checkIfRunningAndGetDatum ext s))
          = mNumberConsecutiveEmptyFrames s + 1
      \<and> (cvMats = [] \<longrightarrow> fst (checkIfRunningAndGetDatum ext s) = Inr (True, Some []))"
      using g c e by simp
  }
  {
    assume b: "mNumberConsecutiveEmptyFrames s = 499"
    have g: "stallGuard True sa
        = (Inl (OpError ''Detected too many (500) empty frames in a row.'' 181
               ''checkIfTooManyConsecutiveEmptyFrames''),
           sa\<lparr>mNumberConsecutiveEmptyFrames := 500\<rparr>)"
      using stall_at_499 m b by (simp add: stallGuard_def)
    have "getDatum ext s
        = (Inl (OpError ''Detected too many (500) empty frames in a row.'' 181
               ''checkIfTooManyConsecutiveEmptyFrames''),
           sa\<lparr>mNumberConsecutiveEmptyFrames := 500\<rparr>)"
      using gd g assms(2) by (auto simp: deliver_unfold)
    from call_Inl [OF this]
    show "checkIfRunningAndGetDatum ext s
        = (Inl (OpError ''Detected too many (500) empty frames in a row.'' 168
                  ''checkIfRunningAndGetDatum''),
           sa\<lparr>mNumberConsecutiveEmptyFrames := 500\<rparr>)"
      by simp
  }
qed

lemma call_full_read:
  assumes "acquire ext s = (Inr (Some (n, fr, cvMats, cm, ce, ci)), sa)"
    and "cvMats \<noteq> []" "\<not> empty_Mat (cvMats ! 0)"
  shows "mNumberConsecutiveEmptyFrames (snd (checkIfRunningAndGetDatum ext s)) = 0"
proof -
  have "read_of ext s = [False]"
    using assms by (auto simp: read_of_def)
  then show ?thesis using call_counter [of ext s] by (simp add: check_False)
qed

section \<open>The source of the examples\<close>

lemma started_eq:
  "started p seek = \<lparr>spProducer = p\<lparr>kind := Webcam\<rparr>, spVideoSeek = seek,
     mNumberFramesToProcess = ull_max, mGlobalCounter = 0, mNumberConsecutiveEmptyFrames = 0,
     logged = [], issued = [], reported = []\<rparr>"
  by (simp add: started_def DatumProducer_def stmt_defs reel_def)

lemma started_release:
  "releaseIfLastFrameReached reel (started p seek) = (Inr (), started p seek)"
  by (simp add: releaseIfLastFrameReached_def started_eq ret_def)

lemma reel_replicates: "replicates_grey reel"
  by (auto simp: replicates_grey_def reel_def split: if_splits)

lemma reel_closes: "closes_on_release reel"
  by (simp add: closes_on_release_def reel_def)

lemma pair_with_snd: "fst x = a \<Longrightarrow> x = (a, snd x)"
  by (cases x) simp

section \<open>The properties\<close>

text \<open>
  C5. The guard alone: starting from a counter of 0, a run of up to 499 empty reads
  throws nothing and the counter is the length of the run; the 500th empty read in a row
  throws the stall error, whose message carries the count 500; a read that is not empty
  sets the counter to 0 whatever it was; the same holds after any earlier reads \<open>bs\<close>
  that did not throw.

  The producer: every call that gets to line 106 gives its read to the guard, on the
  member \<^verbatim>\<open>mNumberConsecutiveEmptyFrames\<close>, and no other call touches the member.
  So after any calls of the pull loop the member is the count of the reads made, which
  is the length \<open>k < 500\<close> of the run of empty reads since the last read that was not
  empty, or since construction. A call that makes an empty read with the member below
  499 passes the guard, adds one to the member and, when there is no view at all,
  returns \<open>true\<close> with the empty batch; with the member at 499 it throws the stall
  error with the count 500, through the handler of line 168. A call that makes a read
  that is not empty leaves the member at 0.
\<close>

theorem stall_threshold:
  "(k < 500 \<longrightarrow> reads 0 (replicate k True) = (Inr (), of_nat k))
   \<and> reads 0 (replicate 500 True)
       = (Inl (OpError ''Detected too many (500) empty frames in a row.'' 181
                 ''checkIfTooManyConsecutiveEmptyFrames''), 500)
   \<and> checkIfTooManyConsecutiveEmptyFrames c False = (Inr (), 0)
   \<and> (fst (reads c bs) = Inr () \<longrightarrow> k < 500 \<longrightarrow>
        reads c (bs @ False # replicate k True) = (Inr (), of_nat k))
   \<and> (fst (reads c bs) = Inr () \<longrightarrow>
        reads c (bs @ False # replicate 500 True)
          = (Inl (OpError ''Detected too many (500) empty frames in a row.'' 181
                    ''checkIfTooManyConsecutiveEmptyFrames''), 500))
   \<and> mNumberConsecutiveEmptyFrames (snd (pull ext ws s))
       = counts (mNumberConsecutiveEmptyFrames s) (pull_reads ext ws s)
   \<and> (pull_reads ext ws s = bs @ False # replicate k True \<longrightarrow> k < 500 \<longrightarrow>
        mNumberConsecutiveEmptyFrames (snd (pull ext ws s)) = of_nat k)
   \<and> (mNumberConsecutiveEmptyFrames s = 0 \<longrightarrow> pull_reads ext ws s = replicate k True \<longrightarrow>
        k < 500 \<longrightarrow> mNumberConsecutiveEmptyFrames (snd (pull ext ws s)) = of_nat k)
   \<and> (acquire ext s = (Inr (Some (n, fr, cvMats, cm, ce, ci)), sa) \<longrightarrow>
        cvMats = [] \<or> empty_Mat (cvMats ! 0) \<longrightarrow>
          (unat (mNumberConsecutiveEmptyFrames s) < 499 \<longrightarrow>
             fst (stallGuard True sa) = Inr ()
           \<and> mNumberConsecutiveEmptyFrames (snd (checkIfRunningAndGetDatum ext s))
               = mNumberConsecutiveEmptyFrames s + 1
           \<and> (cvMats = [] \<longrightarrow> fst (checkIfRunningAndGetDatum ext s) = Inr (True, Some [])))
        \<and> (mNumberConsecutiveEmptyFrames s = 499 \<longrightarrow>
             checkIfRunningAndGetDatum ext s
               = (Inl (OpError ''Detected too many (500) empty frames in a row.'' 168
                         ''checkIfRunningAndGetDatum''),
                  sa\<lparr>mNumberConsecutiveEmptyFrames := 500\<rparr>)))
   \<and> (acquire ext s = (Inr (Some (n, fr, cvMats, cm, ce, ci)), sa) \<longrightarrow>
        cvMats \<noteq> [] \<longrightarrow> \<not> empty_Mat (cvMats ! 0) \<longrightarrow>
          mNumberConsecutiveEmptyFrames (snd (checkIfRunningAndGetDatum ext s)) = 0)"
proof -
  have run: "k < 500 \<Longrightarrow> reads 0 (replicate k True) = (Inr (), of_nat k)" for k
    using reads_run [of 0 k] by simp
  have after: "reads c (bs @ False # rest) = reads 0 rest" if "fst (reads c bs) = Inr ()" for rest
    using that by (cases "reads c bs") (simp add: reads_append check_False)
  have helper: "(k < 500 \<longrightarrow> reads 0 (replicate k True) = (Inr (), of_nat k))
   \<and> reads 0 (replicate 500 True)
       = (Inl (OpError ''Detected too many (500) empty frames in a row.'' 181
                 ''checkIfTooManyConsecutiveEmptyFrames''), 500)
   \<and> checkIfTooManyConsecutiveEmptyFrames c False = (Inr (), 0)
   \<and> (fst (reads c bs) = Inr () \<longrightarrow> k < 500 \<longrightarrow>
        reads c (bs @ False # replicate k True) = (Inr (), of_nat k))
   \<and> (fst (reads c bs) = Inr () \<longrightarrow>
        reads c (bs @ False # replicate 500 True)
          = (Inl (OpError ''Detected too many (500) empty frames in a row.'' 181
                    ''checkIfTooManyConsecutiveEmptyFrames''), 500))"
    using run [of k] after reads_500 by (simp add: check_False)
  have p1: "mNumberConsecutiveEmptyFrames (snd (pull ext ws s))
       = counts (mNumberConsecutiveEmptyFrames s) (pull_reads ext ws s)"
    by (rule pull_counter)
  have p2: "mNumberConsecutiveEmptyFrames (snd (pull ext ws s)) = of_nat k"
    if "pull_reads ext ws s = bs @ False # replicate k True"
    using p1 that by (simp add: counts_reset counts_run)
  have p3: "mNumberConsecutiveEmptyFrames (snd (pull ext ws s)) = of_nat k"
    if "mNumberConsecutiveEmptyFrames s = 0" "pull_reads ext ws s = replicate k True"
    using p1 that by (simp add: counts_run)
  have q: "(unat (mNumberConsecutiveEmptyFrames s) < 499 \<longrightarrow>
             fst (stallGuard True sa) = Inr ()
           \<and> mNumberConsecutiveEmptyFrames (snd (checkIfRunningAndGetDatum ext s))
               = mNumberConsecutiveEmptyFrames s + 1
           \<and> (cvMats = [] \<longrightarrow> fst (checkIfRunningAndGetDatum ext s) = Inr (True, Some [])))
        \<and> (mNumberConsecutiveEmptyFrames s = 499 \<longrightarrow>
             checkIfRunningAndGetDatum ext s
               = (Inl (OpError ''Detected too many (500) empty frames in a row.'' 168
                         ''checkIfRunningAndGetDatum''),
                  sa\<lparr>mNumberConsecutiveEmptyFrames := 500\<rparr>))"
    if "acquire ext s = (Inr (Some (n, fr, cvMats, cm, ce, ci)), sa)"
      "cvMats = [] \<or> empty_Mat (cvMats ! 0)"
    using call_empty_read [OF that] by blast
  have r: "mNumberConsecutiveEmptyFrames (snd (checkIfRunningAndGetDatum ext s)) = 0"
    if "acquire ext s = (Inr (Some (n, fr, cvMats, cm, ce, ci)), sa)"
      "cvMats \<noteq> []" "\<not> empty_Mat (cvMats ! 0)"
    using call_full_read [OF that] .
  show ?thesis
    using helper p1 p2 p3 q r by blast
qed

theorem stall_threshold_witness:
  "reads 0 (replicate 499 True) = (Inr (), 499)
   \<and> fst (reads 7 [True, False]) = Inr ()
   \<and> reads 7 ([True, False] @ False # replicate 499 True) = (Inr (), 499)
   \<and> reads 7 ([True, False] @ False # replicate 500 True)
       = (Inl (OpError ''Detected too many (500) empty frames in a row.'' 181
                 ''checkIfTooManyConsecutiveEmptyFrames''), 500)
   \<and> pull_reads reel [(id, id), (\<lambda>p. p\<lparr>views := []\<rparr>, id), (id, id)] (started mono None)
       = [] @ False # replicate 2 True
   \<and> mNumberConsecutiveEmptyFrames
        (snd (pull reel [(id, id), (\<lambda>p. p\<lparr>views := []\<rparr>, id), (id, id)] (started mono None)))
       = of_nat 2
   \<and> mNumberConsecutiveEmptyFrames dry = 0
   \<and> pull_reads reel [(id, id), (id, id), (id, id)] dry = replicate 3 True
   \<and> mNumberConsecutiveEmptyFrames (snd (pull reel [(id, id), (id, id), (id, id)] dry)) = of_nat 3
   \<and> acquire reel dry = (Inr (Some (''frame'', 0, [], [], [], [])), snd (acquire reel dry))
   \<and> unat (mNumberConsecutiveEmptyFrames dry) < 499
   \<and> fst (checkIfRunningAndGetDatum reel dry) = Inr (True, Some [])
   \<and> mNumberConsecutiveEmptyFrames (snd (checkIfRunningAndGetDatum reel dry))
       = mNumberConsecutiveEmptyFrames dry + 1
   \<and> acquire reel dry_499 = (Inr (Some (''frame'', 0, [], [], [], [])), snd (acquire reel dry_499))
   \<and> mNumberConsecutiveEmptyFrames dry_499 = 499
   \<and> checkIfRunningAndGetDatum reel dry_499
       = (Inl (OpError ''Detected too many (500) empty frames in a row.'' 168
                 ''checkIfRunningAndGetDatum''),
          (snd (acquire reel dry_499))\<lparr>mNumberConsecutiveEmptyFrames := 500\<rparr>)
   \<and> acquire reel full_499
       = (Inr (Some (''frame'', 0, [bgr], [], [], [])), snd (acquire reel full_499))
   \<and> [bgr] \<noteq> [] \<and> \<not> empty_Mat ([bgr] ! 0)
   \<and> mNumberConsecutiveEmptyFrames
        (snd (checkIfRunningAndGetDatum reel full_499)) = 0"
proof -
  let ?ws = "[(id, id), (\<lambda>p. p\<lparr>views := []\<rparr>, id), (id, id)] :: Reel world list"
  let ?w3 = "[(id, id), (id, id), (id, id)] :: Reel world list"
  have h: "fst (reads 7 [True, False]) = Inr ()"
    by (simp add: check_True check_False)
  have k: "(499::nat) < 500" "(2::nat) < 500" "(3::nat) < 500" by simp_all
  have r1: "pull_reads reel ?ws (started mono None) = [] @ False # replicate 2 True"
    by code_simp
  have z: "mNumberConsecutiveEmptyFrames dry = 0"
    by code_simp
  have r2: "pull_reads reel ?w3 dry = replicate 3 True"
    by code_simp
  have "fst (acquire reel dry) = Inr (Some (''frame'', 0, [], [], [], []))"
    by code_simp
  then have a1: "acquire reel dry = (Inr (Some (''frame'', 0, [], [], [], [])), snd (acquire reel dry))"
    by (rule pair_with_snd)
  have u: "unat (mNumberConsecutiveEmptyFrames dry) < 499"
    using z by simp
  have "fst (acquire reel dry_499) = Inr (Some (''frame'', 0, [], [], [], []))"
    by code_simp
  then have a2: "acquire reel dry_499
      = (Inr (Some (''frame'', 0, [], [], [], [])), snd (acquire reel dry_499))"
    by (rule pair_with_snd)
  have m: "mNumberConsecutiveEmptyFrames dry_499 = 499"
    by (simp add: dry_499_def)
  have "fst (acquire reel full_499) = Inr (Some (''frame'', 0, [bgr], [], [], []))"
    by code_simp
  then have a3: "acquire reel full_499
      = (Inr (Some (''frame'', 0, [bgr], [], [], [])), snd (acquire reel full_499))"
    by (rule pair_with_snd)
  have f: "[bgr] \<noteq> []" "\<not> empty_Mat ([bgr] ! 0)" "([]::Mat list) = []"
    by (simp_all add: bgr_def empty_Mat_def)
  note A = stall_threshold [where k = 499 and c = 7 and bs = "[True, False]" and ext = reel
      and ws = "[]" and s = dry and n = "''frame''" and fr = 0 and cvMats = "[]" and cm = "[]"
      and ce = "[]" and ci = "[]" and sa = "snd (acquire reel dry)"]
  note B = stall_threshold [where k = 2 and c = 0 and bs = "[]" and ext = reel
      and ws = ?ws and s = "started mono None" and n = "''frame''" and fr = 0 and cvMats = "[]"
      and cm = "[]" and ce = "[]" and ci = "[]" and sa = "snd (acquire reel dry)"]
  note C = stall_threshold [where k = 3 and c = 0 and bs = "[]" and ext = reel
      and ws = ?w3 and s = dry and n = "''frame''" and fr = 0 and cvMats = "[]"
      and cm = "[]" and ce = "[]" and ci = "[]" and sa = "snd (acquire reel dry)"]
  note D = stall_threshold [where k = 0 and c = 0 and bs = "[]" and ext = reel
      and ws = "[]" and s = dry_499 and n = "''frame''" and fr = 0 and cvMats = "[]"
      and cm = "[]" and ce = "[]" and ci = "[]" and sa = "snd (acquire reel dry_499)"]
  note E = stall_threshold [where k = 0 and c = 0 and bs = "[]" and ext = reel
      and ws = "[]" and s = full_499 and n = "''frame''" and fr = 0 and cvMats = "[bgr]"
      and cm = "[]" and ce = "[]" and ci = "[]" and sa = "snd (acquire reel full_499)"]
  have w1: "reads 0 (replicate 499 True) = (Inr (), 499)"
    "reads 7 ([True, False] @ False # replicate 499 True) = (Inr (), 499)"
    "reads 7 ([True, False] @ False # replicate 500 True)
       = (Inl (OpError ''Detected too many (500) empty frames in a row.'' 181
                 ''checkIfTooManyConsecutiveEmptyFrames''), 500)"
    using A h k by simp_all
  have w2: "mNumberConsecutiveEmptyFrames (snd (pull reel ?ws (started mono None))) = of_nat 2"
    using B r1 k by blast
  have w3: "mNumberConsecutiveEmptyFrames (snd (pull reel ?w3 dry)) = of_nat 3"
    using C r2 z k by blast
  have w4: "fst (checkIfRunningAndGetDatum reel dry) = Inr (True, Some [])"
    "mNumberConsecutiveEmptyFrames (snd (checkIfRunningAndGetDatum reel dry))
       = mNumberConsecutiveEmptyFrames dry + 1"
    using A a1 u f by blast+
  have w5: "checkIfRunningAndGetDatum reel dry_499
       = (Inl (OpError ''Detected too many (500) empty frames in a row.'' 168
                 ''checkIfRunningAndGetDatum''),
          (snd (acquire reel dry_499))\<lparr>mNumberConsecutiveEmptyFrames := 500\<rparr>)"
    using D a2 m f by blast
  have w6: "mNumberConsecutiveEmptyFrames (snd (checkIfRunningAndGetDatum reel full_499)) = 0"
    using E a3 f by blast
  show ?thesis
    using h r1 z r2 a1 u a2 m a3 f w1 w2 w3 w4 w5 w6 by blast
qed

text \<open>
  C1, as the code has it. \<^verbatim>\<open>release()\<close> is called once the counter is greater
  than \<open>frameLast - frameFirst\<close>: for a bounded range with
  \<open>frameFirst \<le> frameLast\<close>, and a source that is closed once \<^verbatim>\<open>release()\<close>
  returns, any number of calls, with any changes to the source and the seek channel in
  between, returns at most \<open>frameLast - frameFirst + 1\<close> batches that hold a view, and
  \<^verbatim>\<open>mGlobalCounter\<close> is their number.
\<close>

theorem range_bound:
  assumes closes: "closes_on_release ext"
    and ctor: "DatumProducer ext p frameFirst frameLast seek = (Inr (), s0)"
    and bounded: "frameLast \<noteq> ull_max" "frameFirst \<le> frameLast"
  shows "length (filter delivered (fst (pull ext ws s0))) \<le> unat frameLast - unat frameFirst + 1
    \<and> unat (mGlobalCounter (snd (pull ext ws s0))) = length (filter delivered (fst (pull ext ws s0)))"
proof -
  note st = ctor_state [OF ctor]
  have n: "mNumberFramesToProcess s0 = frameLast - frameFirst" using st bounded by simp
  have u: "unat (frameLast - frameFirst) = unat frameLast - unat frameFirst"
    using bounded(2) by (simp add: unat_sub)
  have "frameLast - frameFirst \<noteq> ull_max"
    using bounded(1) u by (simp add: not_ull_max)
  then have "mNumberFramesToProcess s0 \<noteq> ull_max" using n by simp
  from pull_bound [OF closes this, of ws] st n u show ?thesis by simp
qed

theorem range_bound_witness:
  "closes_on_release reel
   \<and> DatumProducer reel mono 0 1 None = (Inr (), snd (DatumProducer reel mono 0 1 None))
   \<and> (1::ull) \<noteq> ull_max \<and> (0::ull) \<le> 1
   \<and> length (filter delivered
        (fst (pull reel [(id, id), (id, id), (id, id)] (snd (DatumProducer reel mono 0 1 None)))))
       \<le> unat (1::ull) - unat (0::ull) + 1"
proof -
  have c: "DatumProducer reel mono 0 1 None = (Inr (), snd (DatumProducer reel mono 0 1 None))"
    by (simp add: DatumProducer_def reel_def mono_def stmt_defs)
  have b: "(1::ull) \<noteq> ull_max" "(0::ull) \<le> 1"
    by (simp_all add: ull_max_def)
  from range_bound [OF reel_closes c b] reel_closes c b show ?thesis
    by blast
qed

text \<open>
  C1 as stated fails: with the range \<open>[0, 1)\<close> the source of one frame per read
  delivers two batches in two calls, and the counter is 2; counting every pointer that
  is not \<^verbatim>\<open>nullptr\<close>, three calls return three.
\<close>

theorem range_bound_counterexample:
  "fst (DatumProducer reel mono 0 1 None) = Inr ()
   \<and> \<not> length (filter delivered
          (fst (pull reel [(id, id), (id, id)] (snd (DatumProducer reel mono 0 1 None)))))
        \<le> unat ((1::ull) - 0)
   \<and> \<not> length (filter non_null
          (fst (pull reel [(id, id), (id, id), (id, id)] (snd (DatumProducer reel mono 0 1 None)))))
        \<le> unat ((1::ull) - 0)
   \<and> mGlobalCounter (snd (pull reel [(id, id), (id, id)] (snd (DatumProducer reel mono 0 1 None)))) = 2"
  by code_simp

text \<open>
  C2. The constructor always returns: when the source is not a webcam and the seek to
  \<open>frameFirst\<close> throws, the handler hands the failure to \<^verbatim>\<open>op::error\<close>, which
  reports it with the constructor's line and name, and the object is built with the
  members it has after a seek that returned: the counters at 0, the range and the seek
  channel as given. Nothing is reported when the source is a webcam or the seek returns.
\<close>

theorem construction:
  "fst (DatumProducer ext p frameFirst frameLast seek) = Inr ()
   \<and> mGlobalCounter (snd (DatumProducer ext p frameFirst frameLast seek)) = 0
   \<and> mNumberConsecutiveEmptyFrames (snd (DatumProducer ext p frameFirst frameLast seek)) = 0
   \<and> mNumberFramesToProcess (snd (DatumProducer ext p frameFirst frameLast seek))
       = (if frameLast \<noteq> ull_max then frameLast - frameFirst else frameLast)
   \<and> spVideoSeek (snd (DatumProducer ext p frameFirst frameLast seek)) = seek
   \<and> (getType ext p \<noteq> Webcam \<longrightarrow>
        fst (set_cap ext CV_CAP_PROP_POS_FRAMES (double_of_ull ext frameFirst) p) = Inl w \<longrightarrow>
          reported (snd (DatumProducer ext p frameFirst frameLast seek))
            = [(w, 67, ''DatumProducer'')]
        \<and> spProducer (snd (DatumProducer ext p frameFirst frameLast seek))
            = snd (set_cap ext CV_CAP_PROP_POS_FRAMES (double_of_ull ext frameFirst) p))
   \<and> (getType ext p = Webcam
        \<or> fst (set_cap ext CV_CAP_PROP_POS_FRAMES (double_of_ull ext frameFirst) p) = Inr () \<longrightarrow>
          reported (snd (DatumProducer ext p frameFirst frameLast seek)) = [])"
  by (cases "set_cap ext CV_CAP_PROP_POS_FRAMES (double_of_ull ext frameFirst) p")
    (auto simp: DatumProducer_def stmt_defs split: sum.splits)

theorem construction_witness:
  "getType reel jammed \<noteq> Webcam
   \<and> fst (set_cap reel CV_CAP_PROP_POS_FRAMES (double_of_ull reel 0) jammed) = Inl ''cannot seek''
   \<and> fst (DatumProducer reel jammed 0 ull_max None) = Inr ()
   \<and> reported (snd (DatumProducer reel jammed 0 ull_max None))
       = [(''cannot seek'', 67, ''DatumProducer'')]
   \<and> mGlobalCounter (snd (DatumProducer reel jammed 0 ull_max None)) = 0
   \<and> delivered (fst (checkIfRunningAndGetDatum reel (snd (DatumProducer reel jammed 0 ull_max None))))
   \<and> fst (set_cap reel CV_CAP_PROP_POS_FRAMES (double_of_ull reel 4) mono) = Inr ()
   \<and> reported (snd (DatumProducer reel mono 4 9 None)) = []"
proof -
  have a: "getType reel jammed \<noteq> Webcam"
    "fst (set_cap reel CV_CAP_PROP_POS_FRAMES (double_of_ull reel 0) jammed) = Inl ''cannot seek''"
    "fst (set_cap reel CV_CAP_PROP_POS_FRAMES (double_of_ull reel 4) mono) = Inr ()"
    by (simp_all add: reel_def jammed_def mono_def)
  have d: "delivered (fst (checkIfRunningAndGetDatum reel
      (snd (DatumProducer reel jammed 0 ull_max None))))"
    by code_simp
  from construction [of reel jammed 0 ull_max None "''cannot seek''"]
    construction [of reel mono 4 9 None "''cannot seek''"] a d
  show ?thesis by blast
qed

text \<open>
  C3, as the code has it. When \<^verbatim>\<open>isOpened()\<close> returns false in a call (after
  the \<^verbatim>\<open>release()\<close> of lines 77 to 82, if it was due, has returned), the call
  returns \<open>false\<close> with the batch made at line 76, which has no element and is not
  \<^verbatim>\<open>nullptr\<close>, and \<^verbatim>\<open>mGlobalCounter\<close> is what it was.
\<close>

theorem closed_source:
  assumes "releaseIfLastFrameReached ext s = (Inr (), s')"
    and "\<not> isOpened ext (spProducer s')"
  shows "checkIfRunningAndGetDatum ext s = (Inr (False, Some []), s')
    \<and> mGlobalCounter s' = mGlobalCounter s"
  using assms release_frame [OF assms(1)]
  by (simp add: checkIfRunningAndGetDatum_def getDatum_def acquire_def stmt_defs)

theorem closed_source_witness:
  "releaseIfLastFrameReached reel spent = (Inr (), snd (releaseIfLastFrameReached reel spent))
   \<and> \<not> isOpened reel (spProducer (snd (releaseIfLastFrameReached reel spent)))
   \<and> checkIfRunningAndGetDatum reel spent
       = (Inr (False, Some []), snd (releaseIfLastFrameReached reel spent))
   \<and> mGlobalCounter (snd (releaseIfLastFrameReached reel spent)) = mGlobalCounter spent
   \<and> mGlobalCounter spent = 2"
proof -
  have "fst (releaseIfLastFrameReached reel spent) = Inr ()"
    by code_simp
  then have a: "releaseIfLastFrameReached reel spent
      = (Inr (), snd (releaseIfLastFrameReached reel spent))"
    by (rule pair_with_snd)
  have b: "\<not> isOpened reel (spProducer (snd (releaseIfLastFrameReached reel spent)))"
    by code_simp
  have c: "mGlobalCounter spent = 2"
    by code_simp
  from closed_source [OF a b] a b c show ?thesis by blast
qed

text \<open>
  C3 as stated fails: a source that is closed gets \<open>false\<close> and a batch that is empty,
  not \<^verbatim>\<open>nullptr\<close>.
\<close>

theorem closed_source_counterexample:
  "\<not> isOpened reel (spProducer (started (mono\<lparr>opened := False\<rparr>) None))
   \<and> fst (checkIfRunningAndGetDatum reel (started (mono\<lparr>opened := False\<rparr>) None))
       = Inr (False, Some [])
   \<and> fst (checkIfRunningAndGetDatum reel (started (mono\<lparr>opened := False\<rparr>) None))
       \<noteq> Inr (False, None)"
  by (simp add: checkIfRunningAndGetDatum_def getDatum_def acquire_def
      releaseIfLastFrameReached_def stmt_defs reel_def started_eq)

text \<open>
  C4, as the code has it. In a call with the source open and a seek channel holding
  \<open>(paused, inc)\<close>, the increment is 0 after the call when no cursor move is due
  (\<open>inc - (paused ? 1 : 0) = 0\<close>), and when the move is due and both
  \<^verbatim>\<open>get\<close> and \<^verbatim>\<open>set\<close> return, whatever \<^verbatim>\<open>set\<close> did to the cursor and
  whatever the rest of the call does.
\<close>

theorem seek_one_shot:
  assumes "releaseIfLastFrameReached ext s = (Inr (), s')" and "isOpened ext (spProducer s')"
    and "spVideoSeek s = Some (paused, inc)"
  defines "d \<equiv> inc - (if paused then 1 else 0)"
  shows "(d = 0 \<longrightarrow> spVideoSeek (snd (checkIfRunningAndGetDatum ext s)) = Some (paused, 0))
    \<and> (d \<noteq> 0 \<longrightarrow> fst (get_cap ext CV_CAP_PROP_POS_FRAMES (spProducer s')) = Inr pos \<longrightarrow>
         fst (set_cap ext CV_CAP_PROP_POS_FRAMES (double_add ext pos (double_of_int ext d))
                (snd (get_cap ext CV_CAP_PROP_POS_FRAMES (spProducer s')))) = Inr () \<longrightarrow>
         spVideoSeek (snd (checkIfRunningAndGetDatum ext s)) = Some (paused, 0))"
proof -
  have sk: "spVideoSeek s' = Some (paused, inc)"
    using release_frame [OF assms(1)] assms(3) by simp
  obtain r2 s2 where v: "videoSeek ext s' = (r2, s2)" by fastforce
  have eq: "spVideoSeek (snd (checkIfRunningAndGetDatum ext s)) = spVideoSeek s2"
    using after_seek(2) [OF assms(1,2) v] by (simp add: call_state)
  have a: "spVideoSeek s2 = Some (paused, 0)" if "d = 0"
    using videoSeek_still [OF sk, of ext] that v by (auto simp: d_def)
  have b: "spVideoSeek s2 = Some (paused, 0)"
    if "d \<noteq> 0" and g: "fst (get_cap ext CV_CAP_PROP_POS_FRAMES (spProducer s')) = Inr pos"
      and st: "fst (set_cap ext CV_CAP_PROP_POS_FRAMES (double_add ext pos (double_of_int ext d))
                (snd (get_cap ext CV_CAP_PROP_POS_FRAMES (spProducer s')))) = Inr ()"
  proof -
    obtain p1 where g': "get_cap ext CV_CAP_PROP_POS_FRAMES (spProducer s') = (Inr pos, p1)"
      using g by (cases "get_cap ext CV_CAP_PROP_POS_FRAMES (spProducer s')") auto
    obtain p2 where s': "set_cap ext CV_CAP_PROP_POS_FRAMES (double_add ext pos (double_of_int ext d)) p1
        = (Inr (), p2)"
      using st g' by (cases "set_cap ext CV_CAP_PROP_POS_FRAMES (double_add ext pos (double_of_int ext d)) p1") auto
    from videoSeek_move [OF sk _ g' s' [unfolded d_def]] that(1) v show ?thesis
      by (auto simp: d_def)
  qed
  show ?thesis using a b eq by simp
qed

theorem seek_one_shot_witness:
  "releaseIfLastFrameReached reel (started mono (Some (True, 1))) = (Inr (), started mono (Some (True, 1)))
   \<and> isOpened reel (spProducer (started mono (Some (True, 1))))
   \<and> spVideoSeek (started mono (Some (True, 1))) = Some (True, 1)
   \<and> (1::cint) - (if True then 1 else 0) = 0
   \<and> spVideoSeek (snd (checkIfRunningAndGetDatum reel (started mono (Some (True, 1))))) = Some (True, 0)
   \<and> releaseIfLastFrameReached reel (started mono (Some (False, 5))) = (Inr (), started mono (Some (False, 5)))
   \<and> isOpened reel (spProducer (started mono (Some (False, 5))))
   \<and> spVideoSeek (started mono (Some (False, 5))) = Some (False, 5)
   \<and> (5::cint) - (if False then 1 else 0) \<noteq> 0
   \<and> fst (get_cap reel CV_CAP_PROP_POS_FRAMES (spProducer (started mono (Some (False, 5))))) = Inr 0
   \<and> fst (set_cap reel CV_CAP_PROP_POS_FRAMES (double_add reel 0 (double_of_int reel ((5::cint) - (if False then 1 else 0))))
          (snd (get_cap reel CV_CAP_PROP_POS_FRAMES (spProducer (started mono (Some (False, 5))))))) = Inr ()
   \<and> spVideoSeek (snd (checkIfRunningAndGetDatum reel (started mono (Some (False, 5))))) = Some (False, 0)"
proof -
  have o: "isOpened reel (spProducer (started mono seek))" for seek
    by (simp add: started_eq reel_def mono_def)
  have k: "spVideoSeek (started mono seek) = seek" for seek
    by (simp add: started_eq)
  have g: "fst (get_cap reel CV_CAP_PROP_POS_FRAMES (spProducer (started mono (Some (False, 5))))) = Inr 0"
    by (simp add: started_eq reel_def mono_def)
  have t: "fst (set_cap reel CV_CAP_PROP_POS_FRAMES (double_add reel 0 (double_of_int reel ((5::cint) - (if False then 1 else 0))))
          (snd (get_cap reel CV_CAP_PROP_POS_FRAMES (spProducer (started mono (Some (False, 5))))))) = Inr ()"
    by (simp add: started_eq reel_def mono_def)
  have n: "(1::cint) - (if True then 1 else 0) = 0" "(5::cint) - (if False then 1 else 0) \<noteq> 0"
    by simp_all
  from seek_one_shot [where ext = reel and s = "started mono (Some (True, 1))"
        and paused = True and inc = 1 and pos = 0, OF started_release o k]
    seek_one_shot [where ext = reel and s = "started mono (Some (False, 5))"
        and paused = False and inc = 5 and pos = 0, OF started_release o k]
    started_release o k g t n
  show ?thesis by blast
qed

text \<open>
  C4 as stated fails when the cursor move fails by throwing: line 97 is not reached, the
  call throws and the increment is still 5.
\<close>

theorem seek_one_shot_counterexample:
  "isOpened reel (spProducer (started jammed (Some (False, 5))))
   \<and> spVideoSeek (started jammed (Some (False, 5))) = Some (False, 5)
   \<and> fst (checkIfRunningAndGetDatum reel (started jammed (Some (False, 5))))
       = Inl (OpError ''cannot seek'' 168 ''checkIfRunningAndGetDatum'')
   \<and> spVideoSeek (snd (checkIfRunningAndGetDatum reel (started jammed (Some (False, 5)))))
       = Some (False, 5)
   \<and> (5::cint) \<noteq> 0"
  by (simp add: started_eq checkIfRunningAndGetDatum_def getDatum_def acquire_def
      releaseIfLastFrameReached_def videoSeek_def stmt_defs reel_def mono_def jammed_def
      ull_max_def Let_def)



text \<open>
  C7. Take a call that fetched a view set that is not empty. If it returns a batch,
  then the image of view 0 had 3 channels or 1; with 3 the input image of element 0 is
  the fetched image and nothing is logged; with 1 it is what \<^verbatim>\<open>cv::cvtColor\<close>
  returned for the fetched image (its three-channel copy, every sample three times, for
  an OpenCV that does what it documents) and the notice is logged; and the output image
  of element 0 is its input image. With any other channel count the call never returns:
  when the stall guard lets the read pass and the calibration of element 0 can be read,
  it throws the fatal error with the message \<open>Input images must be 3-channel BGR.\<close>
\<close>

theorem channel_normalization:
  assumes "acquire ext s = (Inr (Some (n, k, cvMats, cm, ce, ci)), sa)" and "cvMats \<noteq> []"
  shows "(checkIfRunningAndGetDatum ext s = (Inr (running, Some ds), s') \<longrightarrow>
            cvOutputData (ds ! 0) = cvInputData (ds ! 0)
          \<and> (channels (cvMats ! 0) = 3 \<or> channels (cvMats ! 0) = 1)
          \<and> (channels (cvMats ! 0) = 3 \<longrightarrow>
                cvInputData (ds ! 0) = cvMats ! 0 \<and> logged s' = logged s)
          \<and> (channels (cvMats ! 0) = 1 \<longrightarrow>
                cvtColor ext (cvMats ! 0) = Inr (cvInputData (ds ! 0))
              \<and> logged s' = logged s @ [commonMessage @ '' Converting grey image into BGR.'']
              \<and> (replicates_grey ext \<longrightarrow>
                    cvInputData (ds ! 0) = GRAY2BGR (cvMats ! 0)
                  \<and> channels (cvInputData (ds ! 0)) = 3)))
    \<and> (channels (cvMats ! 0) \<noteq> 3 \<longrightarrow> channels (cvMats ! 0) \<noteq> 1 \<longrightarrow>
          (\<forall>r. fst (checkIfRunningAndGetDatum ext s) \<noteq> Inr r)
        \<and> (fst (stallGuard (cvMats = [] \<or> empty_Mat (cvMats ! 0)) sa) = Inr () \<longrightarrow>
            (cm \<noteq> [] \<longrightarrow> ce \<noteq> [] \<and> ci \<noteq> []) \<longrightarrow>
              fst (checkIfRunningAndGetDatum ext s)
                = Inl (OpError commonMessage 168 ''checkIfRunningAndGetDatum'')))"
proof (intro conjI impI)
  assume c: "checkIfRunningAndGetDatum ext s = (Inr (running, Some ds), s')"
  from call_delivers [OF assms c] obtain sb sc
    where g: "stallGuard (cvMats = [] \<or> empty_Mat (cvMats ! 0)) sa = (Inr (), sb)"
      and p: "populate ext n k cvMats cm ce ci sb = (Inr ds, sc)"
      and s': "s' = sc\<lparr>mGlobalCounter := mGlobalCounter sc + 1\<rparr>" by blast
  note R = populate_result [OF assms(2) p]
  have lg: "logged sb = logged s"
    using stallGuard_frame [OF g] acquire_frame [OF assms(1)] by simp
  have lg': "logged s' = logged sc" using s' by simp
  show "cvOutputData (ds ! 0) = cvInputData (ds ! 0)" by (rule R(4))
  show "channels (cvMats ! 0) = 3 \<or> channels (cvMats ! 0) = 1" using R(5) by blast
  show "cvInputData (ds ! 0) = cvMats ! 0" if "channels (cvMats ! 0) = 3"
    using R(5) that by auto
  show "logged s' = logged s" if "channels (cvMats ! 0) = 3"
    using R(5) that lg lg' by auto
  show cv: "cvtColor ext (cvMats ! 0) = Inr (cvInputData (ds ! 0))" if "channels (cvMats ! 0) = 1"
    using R(5) that by auto
  show "logged s' = logged s @ [commonMessage @ '' Converting grey image into BGR.'']"
    if "channels (cvMats ! 0) = 1"
    using R(5) that lg lg' by auto
  show gb: "cvInputData (ds ! 0) = GRAY2BGR (cvMats ! 0)"
    if "channels (cvMats ! 0) = 1" "replicates_grey ext"
    using cv that unfolding replicates_grey_def by blast
  show "channels (cvInputData (ds ! 0)) = 3"
    if "channels (cvMats ! 0) = 1" "replicates_grey ext"
    using gb that by (simp add: GRAY2BGR_def)
next
  assume ch: "channels (cvMats ! 0) \<noteq> 3" "channels (cvMats ! 0) \<noteq> 1"
  show "\<forall>r. fst (checkIfRunningAndGetDatum ext s) \<noteq> Inr r"
  proof (intro allI notI)
    fix r assume a: "fst (checkIfRunningAndGetDatum ext s) = Inr r"
    then have c: "checkIfRunningAndGetDatum ext s = (Inr r, snd (checkIfRunningAndGetDatum ext s))"
      by (rule pair_with_snd)
    then have d: "deliver ext True (n, k, cvMats, cm, ce, ci) sa
        = (Inr r, snd (checkIfRunningAndGetDatum ext s))"
      using assms(1) by (simp add: call_Inr getDatum_fetched)
    obtain r1 sb where g: "stallGuard (cvMats = [] \<or> empty_Mat (cvMats ! 0)) sa = (r1, sb)"
      by fastforce
    obtain r2 sc where p: "populate ext n k cvMats cm ce ci sb = (r2, sc)"
      by fastforce
    from d g p assms(2) obtain ds where "r2 = Inr ds"
      by (auto simp: deliver_unfold split: sum.splits if_splits)
    with p populate_result(5) [OF assms(2), of ext n k cm ce ci sb ds sc] ch show False by auto
  qed
next
  assume ch: "channels (cvMats ! 0) \<noteq> 3" "channels (cvMats ! 0) \<noteq> 1"
    and gd: "fst (stallGuard (cvMats = [] \<or> empty_Mat (cvMats ! 0)) sa) = Inr ()"
    and cal: "cm \<noteq> [] \<longrightarrow> ce \<noteq> [] \<and> ci \<noteq> []"
  obtain sb where g: "stallGuard (cvMats = [] \<or> empty_Mat (cvMats ! 0)) sa = (Inr (), sb)"
    using gd by (cases "stallGuard (cvMats = [] \<or> empty_Mat (cvMats ! 0)) sa") auto
  obtain d where f: "fillFirst n k cvMats cm ce ci Datum_default = Inr d"
    using fillFirst_covers [OF assms(2) cal] by blast
  have "channels (cvInputData d) \<noteq> 3" "channels (cvInputData d) \<noteq> 1"
    using fillFirst_Inr [OF f] ch by simp_all
  then have "populate ext n k cvMats cm ce ci sb
      = (Inl (OpError commonMessage 133 ''checkIfRunningAndGetDatum''), sb)"
    using assms(2) f by (simp add: populate_unfold imageIntegrity_other)
  then have "getDatum ext s = (Inl (OpError commonMessage 133 ''checkIfRunningAndGetDatum''), sb)"
    using assms g by (simp add: getDatum_fetched deliver_unfold)
  from call_Inl [OF this]
  show "fst (checkIfRunningAndGetDatum ext s)
      = Inl (OpError commonMessage 168 ''checkIfRunningAndGetDatum'')"
    by simp
qed

theorem channel_normalization_witness:
  "acquire reel grey_run = (Inr (Some (''frame'', 0, [grey], [], [], [])), snd (acquire reel grey_run))
   \<and> [grey] \<noteq> []
   \<and> checkIfRunningAndGetDatum reel grey_run
       = (Inr (True, Some (batch_of (fst (checkIfRunningAndGetDatum reel grey_run)))),
          snd (checkIfRunningAndGetDatum reel grey_run))
   \<and> channels ([grey] ! 0) = 1 \<and> replicates_grey reel
   \<and> cvOutputData (batch_of (fst (checkIfRunningAndGetDatum reel grey_run)) ! 0)
       = cvInputData (batch_of (fst (checkIfRunningAndGetDatum reel grey_run)) ! 0)
   \<and> cvInputData (batch_of (fst (checkIfRunningAndGetDatum reel grey_run)) ! 0) = GRAY2BGR ([grey] ! 0)
   \<and> channels (cvInputData (batch_of (fst (checkIfRunningAndGetDatum reel grey_run)) ! 0)) = 3
   \<and> logged (snd (checkIfRunningAndGetDatum reel grey_run))
       = logged grey_run @ [commonMessage @ '' Converting grey image into BGR.'']
   \<and> acquire reel two_channel_run
       = (Inr (Some (''frame'', 0, [two_channel], [], [], [])), snd (acquire reel two_channel_run))
   \<and> [two_channel] \<noteq> []
   \<and> channels ([two_channel] ! 0) \<noteq> 3 \<and> channels ([two_channel] ! 0) \<noteq> 1
   \<and> fst (stallGuard ([two_channel] = [] \<or> empty_Mat ([two_channel] ! 0))
          (snd (acquire reel two_channel_run))) = Inr ()
   \<and> fst (checkIfRunningAndGetDatum reel two_channel_run)
       = Inl (OpError commonMessage 168 ''checkIfRunningAndGetDatum'')"
proof -
  have "fst (acquire reel grey_run) = Inr (Some (''frame'', 0, [grey], [], [], []))"
    by code_simp
  then have a: "acquire reel grey_run
      = (Inr (Some (''frame'', 0, [grey], [], [], [])), snd (acquire reel grey_run))"
    by (rule pair_with_snd)
  have "fst (checkIfRunningAndGetDatum reel grey_run)
      = Inr (True, Some (batch_of (fst (checkIfRunningAndGetDatum reel grey_run))))"
    by code_simp
  then have c: "checkIfRunningAndGetDatum reel grey_run
       = (Inr (True, Some (batch_of (fst (checkIfRunningAndGetDatum reel grey_run)))),
          snd (checkIfRunningAndGetDatum reel grey_run))"
    by (rule pair_with_snd)
  have g: "channels ([grey] ! 0) = 1" by (simp add: grey_def)
  have "fst (acquire reel two_channel_run) = Inr (Some (''frame'', 0, [two_channel], [], [], []))"
    by code_simp
  then have a2: "acquire reel two_channel_run
      = (Inr (Some (''frame'', 0, [two_channel], [], [], [])), snd (acquire reel two_channel_run))"
    by (rule pair_with_snd)
  have t: "channels ([two_channel] ! 0) \<noteq> 3" "channels ([two_channel] ! 0) \<noteq> 1"
    "([]::Mat list) \<noteq> [] \<longrightarrow> ([]::Mat list) \<noteq> [] \<and> ([]::Mat list) \<noteq> []"
    by (simp_all add: two_channel_def)
  have sg: "fst (stallGuard ([two_channel] = [] \<or> empty_Mat ([two_channel] ! 0))
          (snd (acquire reel two_channel_run))) = Inr ()"
    by code_simp
  have ne: "[grey] \<noteq> []" "[two_channel] \<noteq> []" by simp_all
  from channel_normalization [OF a ne(1), of True "batch_of (fst (checkIfRunningAndGetDatum reel grey_run))"
      "snd (checkIfRunningAndGetDatum reel grey_run)"]
    channel_normalization [OF a2 ne(2), of True "[]" two_channel_run]
    a c g a2 t sg ne reel_replicates
  show ?thesis by blast
qed

text \<open>
  C8. Every batch a call returns has one element per fetched view; every element has the
  name and the frame number of element 0, which are the fetched ones; and every element
  \<open>i \<ge> 1\<close> has the fetched image \<open>i\<close> as its input and its output image.
\<close>

theorem multi_view_identity:
  assumes "acquire ext s = (Inr (Some (n, k, cvMats, cm, ce, ci)), sa)"
    and "checkIfRunningAndGetDatum ext s = (Inr (running, Some ds), s')"
  shows "length ds = length cvMats
    \<and> (\<forall>i<length ds. name (ds ! i) = name (ds ! 0) \<and> frameNumber (ds ! i) = frameNumber (ds ! 0)
          \<and> name (ds ! i) = n \<and> frameNumber (ds ! i) = k)
    \<and> (\<forall>i. 1 \<le> i \<and> i < length ds \<longrightarrow>
          cvInputData (ds ! i) = cvMats ! i \<and> cvOutputData (ds ! i) = cvMats ! i)"
proof (cases "cvMats = []")
  case True
  then have "deliver ext True (n, k, cvMats, cm, ce, ci) sa = (Inr (running, Some ds), s')"
    using assms by (simp add: call_Inr getDatum_fetched)
  then have "ds = []" using True
    by (auto simp: deliver_unfold split: prod.splits sum.splits)
  then show ?thesis using True by simp
next
  case False
  from call_delivers [OF assms(1) False assms(2)] obtain sb sc
    where p: "populate ext n k cvMats cm ce ci sb = (Inr ds, sc)" by blast
  note R = populate_result [OF False p]
  have "0 < length ds" using R(1) False by simp
  then have "name (ds ! 0) = n \<and> frameNumber (ds ! 0) = k" using R(2) by blast
  then show ?thesis using R(1,2,3) by simp
qed

theorem multi_view_identity_witness:
  "acquire reel stereo_run
     = (Inr (Some (''frame'', 0, [grey, bgr], [bgr, bgr], [bgr, bgr], [bgr, bgr])),
        snd (acquire reel stereo_run))
   \<and> checkIfRunningAndGetDatum reel stereo_run
       = (Inr (True, Some (batch_of (fst (checkIfRunningAndGetDatum reel stereo_run)))),
          snd (checkIfRunningAndGetDatum reel stereo_run))
   \<and> length (batch_of (fst (checkIfRunningAndGetDatum reel stereo_run))) = 2
   \<and> name (batch_of (fst (checkIfRunningAndGetDatum reel stereo_run)) ! 1)
       = name (batch_of (fst (checkIfRunningAndGetDatum reel stereo_run)) ! 0)
   \<and> frameNumber (batch_of (fst (checkIfRunningAndGetDatum reel stereo_run)) ! 1)
       = frameNumber (batch_of (fst (checkIfRunningAndGetDatum reel stereo_run)) ! 0)
   \<and> name (batch_of (fst (checkIfRunningAndGetDatum reel stereo_run)) ! 1) = ''frame''
   \<and> cvInputData (batch_of (fst (checkIfRunningAndGetDatum reel stereo_run)) ! 1) = [grey, bgr] ! 1
   \<and> cvOutputData (batch_of (fst (checkIfRunningAndGetDatum reel stereo_run)) ! 1) = [grey, bgr] ! 1"
proof -
  let ?ds = "batch_of (fst (checkIfRunningAndGetDatum reel stereo_run))"
  have "fst (acquire reel stereo_run)
      = Inr (Some (''frame'', 0, [grey, bgr], [bgr, bgr], [bgr, bgr], [bgr, bgr]))"
    by code_simp
  then have a: "acquire reel stereo_run
     = (Inr (Some (''frame'', 0, [grey, bgr], [bgr, bgr], [bgr, bgr], [bgr, bgr])),
        snd (acquire reel stereo_run))"
    by (rule pair_with_snd)
  have "fst (checkIfRunningAndGetDatum reel stereo_run) = Inr (True, Some ?ds)"
    by code_simp
  then have c: "checkIfRunningAndGetDatum reel stereo_run
       = (Inr (True, Some ?ds), snd (checkIfRunningAndGetDatum reel stereo_run))"
    by (rule pair_with_snd)
  note m = multi_view_identity [OF a c]
  have l: "length ?ds = 2" using m by simp
  then have i: "(1::nat) < length ?ds" "1 \<le> (1::nat) \<and> (1::nat) < length ?ds" by simp_all
  from m i l a c show ?thesis by blast
qed

text \<open>
  C9. When the fetched view set is not empty and the input image of element 0 is empty
  after the batch was filled, the call returns \<open>true\<close> (the source is open) with
  \<^verbatim>\<open>nullptr\<close>, and \<^verbatim>\<open>mGlobalCounter\<close> is what it was.
\<close>

theorem discard_on_empty:
  assumes "acquire ext s = (Inr (Some (n, k, cvMats, cm, ce, ci)), sa)" and "cvMats \<noteq> []"
    and "stallGuard (cvMats = [] \<or> empty_Mat (cvMats ! 0)) sa = (Inr (), sb)"
    and "populate ext n k cvMats cm ce ci sb = (Inr ds, sc)"
    and "empty_Mat (cvInputData (ds ! 0))"
  shows "checkIfRunningAndGetDatum ext s = (Inr (True, None), sc)
    \<and> mGlobalCounter sc = mGlobalCounter s"
proof -
  have "getDatum ext s = (Inr (True, None), sc)"
    using assms by (simp add: getDatum_fetched deliver_unfold)
  then have c: "checkIfRunningAndGetDatum ext s = (Inr (True, None), sc)"
    by (simp add: call_Inr)
  from call_frame [OF c] c show ?thesis by simp
qed

theorem discard_on_empty_witness:
  "acquire reel blank_run = (Inr (Some (''frame'', 0, [blank], [], [], [])), snd (acquire reel blank_run))
   \<and> [blank] \<noteq> []
   \<and> stallGuard ([blank] = [] \<or> empty_Mat ([blank] ! 0)) (snd (acquire reel blank_run))
       = (Inr (), snd (checkIfRunningAndGetDatum reel blank_run))
   \<and> populate reel ''frame'' 0 [blank] [] [] [] (snd (checkIfRunningAndGetDatum reel blank_run))
       = (Inr [Datum_default\<lparr>name := ''frame'', cvInputData := blank, cvOutputData := blank\<rparr>],
          snd (checkIfRunningAndGetDatum reel blank_run))
   \<and> empty_Mat (cvInputData ([Datum_default\<lparr>name := ''frame'', cvInputData := blank, cvOutputData := blank\<rparr>] ! 0))
   \<and> checkIfRunningAndGetDatum reel blank_run
       = (Inr (True, None), snd (checkIfRunningAndGetDatum reel blank_run))
   \<and> mGlobalCounter (snd (checkIfRunningAndGetDatum reel blank_run)) = mGlobalCounter blank_run"
proof -
  have "fst (acquire reel blank_run) = Inr (Some (''frame'', 0, [blank], [], [], []))"
    by code_simp
  then have a: "acquire reel blank_run
      = (Inr (Some (''frame'', 0, [blank], [], [], [])), snd (acquire reel blank_run))"
    by (rule pair_with_snd)
  have b: "[blank] \<noteq> []" by simp
  have c: "stallGuard ([blank] = [] \<or> empty_Mat ([blank] ! 0)) (snd (acquire reel blank_run))
       = (Inr (), snd (checkIfRunningAndGetDatum reel blank_run))"
    by code_simp
  have d: "populate reel ''frame'' 0 [blank] [] [] [] (snd (checkIfRunningAndGetDatum reel blank_run))
       = (Inr [Datum_default\<lparr>name := ''frame'', cvInputData := blank, cvOutputData := blank\<rparr>],
          snd (checkIfRunningAndGetDatum reel blank_run))"
    by code_simp
  have e: "empty_Mat (cvInputData ([Datum_default\<lparr>name := ''frame'', cvInputData := blank, cvOutputData := blank\<rparr>] ! 0))"
    by code_simp
  from discard_on_empty [OF a b c d e] a b c d e show ?thesis by blast
qed

text \<open>
  C10. The only guard of the three calibration reads at index \<open>i\<close> is
  \<open>i < cameraMatrices.size()\<close>. When the extrinsics and intrinsics sequences are at
  least as long as the camera-matrices sequence, up to the view count, no read is out of
  range. When they are not, a call that reaches the reads makes one out of range:
  always when the sequence that is too short is empty (element 0 is read before the
  channel check), and for a later index when view 0 has 3 channels. A call with views
  that returns has had them long enough.
\<close>

theorem calibration_bounds:
  assumes "acquire ext s = (Inr (Some (n, k, cvMats, cm, ce, ci)), sa)"
  shows "(calibration_covers cvMats cm ce ci \<longrightarrow>
            fst (checkIfRunningAndGetDatum ext s) \<noteq> Inl OutOfRange)
    \<and> (cvMats \<noteq> [] \<longrightarrow> \<not> calibration_covers cvMats cm ce ci \<longrightarrow>
          fst (stallGuard (cvMats = [] \<or> empty_Mat (cvMats ! 0)) sa) = Inr () \<longrightarrow>
          channels (cvMats ! 0) = 3 \<or> cm \<noteq> [] \<and> (ce = [] \<or> ci = []) \<longrightarrow>
          fst (checkIfRunningAndGetDatum ext s) = Inl OutOfRange)
    \<and> (cvMats \<noteq> [] \<longrightarrow> (\<exists>r. fst (checkIfRunningAndGetDatum ext s) = Inr r) \<longrightarrow>
          calibration_covers cvMats cm ce ci)"
proof -
  obtain r1 sb where g: "stallGuard (cvMats = [] \<or> empty_Mat (cvMats ! 0)) sa = (r1, sb)"
    by fastforce
  obtain r2 sc where p: "populate ext n k cvMats cm ce ci sb = (r2, sc)"
    by fastforce
  have gd: "getDatum ext s = deliver ext True (n, k, cvMats, cm, ce, ci) sa"
    using assms by (rule getDatum_fetched)
  have A: "fst (checkIfRunningAndGetDatum ext s) \<noteq> Inl OutOfRange"
    if cov: "calibration_covers cvMats cm ce ci"
  proof (cases r1)
    case (Inl e)
    then have "getDatum ext s = (Inl e, sb)" using gd g by (simp add: deliver_unfold)
    from call_Inl [OF this] stallGuard_caught [of _ sa e sb] g Inl show ?thesis by simp
  next
    case (Inr u)
    show ?thesis
    proof (cases "cvMats = []")
      case True
      then have "getDatum ext s = (Inr (True, Some []), sb)"
        using gd g Inr by (simp add: deliver_unfold)
      then show ?thesis by (simp add: call_Inr [THEN iffD2])
    next
      case False
      have nr: "r2 \<noteq> Inl OutOfRange"
        using populate_in_range [OF False cov, of ext n k sb] p by simp
      show ?thesis
      proof (cases r2)
        case (Inl e)
        then have "getDatum ext s = (Inl e, sc)"
          using gd g p Inr False by (simp add: deliver_unfold)
        from call_Inl [OF this] nr Inl show ?thesis by (cases e) simp_all
      next
        case r: (Inr ds)
        then obtain r' s' where "getDatum ext s = (Inr r', s')"
          using gd g p Inr False by (cases "empty_Mat (cvInputData (ds ! 0))") (simp_all add: deliver_unfold)
        then show ?thesis by (simp add: call_Inr [THEN iffD2])
      qed
    qed
  qed
  have B: "fst (checkIfRunningAndGetDatum ext s) = Inl OutOfRange"
    if "cvMats \<noteq> []" "\<not> calibration_covers cvMats cm ce ci"
      "fst (stallGuard (cvMats = [] \<or> empty_Mat (cvMats ! 0)) sa) = Inr ()"
      "channels (cvMats ! 0) = 3 \<or> cm \<noteq> [] \<and> (ce = [] \<or> ci = [])"
  proof -
    have "populate ext n k cvMats cm ce ci sb = (Inl OutOfRange, sb)"
      by (rule populate_out_of_range [OF that(1,2,4)])
    then have "getDatum ext s = (Inl OutOfRange, sb)"
      using gd g that(1,3) by (simp add: deliver_unfold)
    from call_Inl [OF this] show ?thesis by simp
  qed
  have C: "calibration_covers cvMats cm ce ci"
    if ne: "cvMats \<noteq> []" and "\<exists>r. fst (checkIfRunningAndGetDatum ext s) = Inr r"
  proof -
    from that(2) obtain r where "fst (checkIfRunningAndGetDatum ext s) = Inr r" by blast
    then have "checkIfRunningAndGetDatum ext s = (Inr r, snd (checkIfRunningAndGetDatum ext s))"
      by (rule pair_with_snd)
    then have "deliver ext True (n, k, cvMats, cm, ce, ci) sa
        = (Inr r, snd (checkIfRunningAndGetDatum ext s))"
      using gd by (simp add: call_Inr)
    then obtain ds where "r2 = Inr ds"
      using g p ne by (auto simp: deliver_unfold split: sum.splits if_splits)
    with p populate_result(6) [OF ne, of ext n k cm ce ci sb ds sc] show ?thesis by simp
  qed
  show ?thesis using A B C by blast
qed

theorem calibration_bounds_witness:
  "acquire reel short_run
     = (Inr (Some (''frame'', 0, [bgr, bgr], [bgr, bgr], [bgr], [bgr, bgr])),
        snd (acquire reel short_run))
   \<and> [bgr, bgr] \<noteq> [] \<and> \<not> calibration_covers [bgr, bgr] [bgr, bgr] [bgr] [bgr, bgr]
   \<and> fst (stallGuard ([bgr, bgr] = [] \<or> empty_Mat ([bgr, bgr] ! 0)) (snd (acquire reel short_run)))
       = Inr ()
   \<and> channels ([bgr, bgr] ! 0) = 3
   \<and> fst (checkIfRunningAndGetDatum reel short_run) = Inl OutOfRange
   \<and> acquire reel stereo_run
     = (Inr (Some (''frame'', 0, [grey, bgr], [bgr, bgr], [bgr, bgr], [bgr, bgr])),
        snd (acquire reel stereo_run))
   \<and> calibration_covers [grey, bgr] [bgr, bgr] [bgr, bgr] [bgr, bgr]
   \<and> fst (checkIfRunningAndGetDatum reel stereo_run) \<noteq> Inl OutOfRange"
proof -
  have "fst (acquire reel short_run)
      = Inr (Some (''frame'', 0, [bgr, bgr], [bgr, bgr], [bgr], [bgr, bgr]))"
    by code_simp
  then have a: "acquire reel short_run
     = (Inr (Some (''frame'', 0, [bgr, bgr], [bgr, bgr], [bgr], [bgr, bgr])),
        snd (acquire reel short_run))"
    by (rule pair_with_snd)
  have b: "[bgr, bgr] \<noteq> []" "\<not> calibration_covers [bgr, bgr] [bgr, bgr] [bgr] [bgr, bgr]"
    "channels ([bgr, bgr] ! 0) = 3"
    by (simp_all add: calibration_covers_def bgr_def)
  have g: "fst (stallGuard ([bgr, bgr] = [] \<or> empty_Mat ([bgr, bgr] ! 0)) (snd (acquire reel short_run)))
       = Inr ()"
    by code_simp
  have "fst (acquire reel stereo_run)
      = Inr (Some (''frame'', 0, [grey, bgr], [bgr, bgr], [bgr, bgr], [bgr, bgr]))"
    by code_simp
  then have a2: "acquire reel stereo_run
     = (Inr (Some (''frame'', 0, [grey, bgr], [bgr, bgr], [bgr, bgr], [bgr, bgr])),
        snd (acquire reel stereo_run))"
    by (rule pair_with_snd)
  have c: "calibration_covers [grey, bgr] [bgr, bgr] [bgr, bgr] [bgr, bgr]"
    by (simp add: calibration_covers_def)
  from calibration_bounds [OF a] calibration_bounds [OF a2] a a2 b c g
  show ?thesis by blast
qed

end
